theory Spec2Isabelle
  imports Complex_Main
begin

section \<open>The dissolution weatherer of PyGnome\<close>

text \<open>
  This theory embeds \<^verbatim>\<open>py_gnome/gnome/weatherers/dissolution.py\<close>: the class
  \<^verbatim>\<open>Dissolution\<close> with \<^verbatim>\<open>initialize_data\<close>, \<^verbatim>\<open>_initialize_k_ow\<close>,
  \<^verbatim>\<open>dissolve_oil\<close>, \<^verbatim>\<open>oil_avg_density\<close>, \<^verbatim>\<open>beta_coeff\<close>,
  \<^verbatim>\<open>water_column_time_fraction\<close> and \<^verbatim>\<open>weather_elements\<close>.
  Arrays are lists, a raised exception is an error value, the loops are recursive
  functions that pass the arrays, the ledger and a log of the provider queries along.
  The \<^verbatim>\<open>print\<close> statements and the debug logging of the source are left out, and
  the provider is taken to answer every query.
\<close>

subsection \<open>Numbers: numpy float64 values\<close>

text \<open>
  A numpy \<^verbatim>\<open>float64\<close> is a finite number, an infinity or NaN. Division by zero
  raises nothing in numpy (it warns and yields an infinity or NaN), so the special values
  are part of the model. Two things are abstracted: finite arithmetic is exact (no
  rounding and no overflow), and zero has no sign (a zero divisor counts as \<open>+0.0\<close>).
\<close>

datatype fl = Fin real | PInf | NInf | NaN

fun is_finite :: "fl \<Rightarrow> bool" where
  "is_finite (Fin x) = True"
| "is_finite PInf = False"
| "is_finite NInf = False"
| "is_finite NaN = False"

fun fneg :: "fl \<Rightarrow> fl" where
  "fneg (Fin x) = Fin (- x)"
| "fneg PInf = NInf"
| "fneg NInf = PInf"
| "fneg NaN = NaN"

fun fadd :: "fl \<Rightarrow> fl \<Rightarrow> fl" where
  "fadd NaN y = NaN"
| "fadd x NaN = NaN"
| "fadd (Fin x) (Fin y) = Fin (x + y)"
| "fadd PInf NInf = NaN"
| "fadd NInf PInf = NaN"
| "fadd PInf y = PInf"
| "fadd x PInf = PInf"
| "fadd NInf y = NInf"
| "fadd x NInf = NInf"

definition fsub :: "fl \<Rightarrow> fl \<Rightarrow> fl" where
  "fsub x y = fadd x (fneg y)"

fun fmul :: "fl \<Rightarrow> fl \<Rightarrow> fl" where
  "fmul NaN y = NaN"
| "fmul x NaN = NaN"
| "fmul (Fin x) (Fin y) = Fin (x * y)"
| "fmul (Fin x) PInf = (if x = 0 then NaN else if 0 < x then PInf else NInf)"
| "fmul (Fin x) NInf = (if x = 0 then NaN else if 0 < x then NInf else PInf)"
| "fmul PInf (Fin y) = (if y = 0 then NaN else if 0 < y then PInf else NInf)"
| "fmul NInf (Fin y) = (if y = 0 then NaN else if 0 < y then NInf else PInf)"
| "fmul PInf PInf = PInf"
| "fmul PInf NInf = NInf"
| "fmul NInf PInf = NInf"
| "fmul NInf NInf = PInf"

fun fdiv :: "fl \<Rightarrow> fl \<Rightarrow> fl" where
  "fdiv NaN y = NaN"
| "fdiv x NaN = NaN"
| "fdiv (Fin x) (Fin y) =
     (if y = 0 then (if x = 0 then NaN else if 0 < x then PInf else NInf)
      else Fin (x / y))"
| "fdiv (Fin x) PInf = Fin 0"
| "fdiv (Fin x) NInf = Fin 0"
| "fdiv PInf (Fin y) = (if 0 \<le> y then PInf else NInf)"
| "fdiv NInf (Fin y) = (if 0 \<le> y then NInf else PInf)"
| "fdiv PInf PInf = NaN"
| "fdiv PInf NInf = NaN"
| "fdiv NInf PInf = NaN"
| "fdiv NInf NInf = NaN"

text \<open>\<^verbatim>\<open>x > y\<close>: false whenever a NaN is involved.\<close>

fun fgt :: "fl \<Rightarrow> fl \<Rightarrow> bool" where
  "fgt NaN y = False"
| "fgt x NaN = False"
| "fgt (Fin x) (Fin y) = (y < x)"
| "fgt PInf PInf = False"
| "fgt PInf y = True"
| "fgt x PInf = False"
| "fgt NInf y = False"
| "fgt x NInf = True"

text \<open>\<^verbatim>\<open>x == y\<close>: NaN equals nothing, itself included.\<close>

fun feq :: "fl \<Rightarrow> fl \<Rightarrow> bool" where
  "feq NaN y = False"
| "feq x NaN = False"
| "feq x y = (x = y)"

text \<open>
  \<^verbatim>\<open>x ** p\<close> for the two exponents of the source, \<open>2/3\<close> and \<open>1/3\<close>
  (positive, not integers): a negative base gives NaN, both infinities give \<open>+inf\<close>.
\<close>

fun fpow :: "fl \<Rightarrow> real \<Rightarrow> fl" where
  "fpow (Fin x) p = (if x < 0 then NaN else Fin (x powr p))"
| "fpow PInf p = PInf"
| "fpow NInf p = PInf"
| "fpow NaN p = NaN"

text \<open>\<^verbatim>\<open>np.sum\<close> over a one-dimensional array; the sum of no element is \<open>0.0\<close>.\<close>

primrec fsum :: "fl list \<Rightarrow> fl" where
  "fsum [] = Fin 0"
| "fsum (x # xs) = fadd x (fsum xs)"

text \<open>A boolean mask used as a number: \<^verbatim>\<open>True\<close> is 1, \<^verbatim>\<open>False\<close> is 0.\<close>

definition of_mask :: "bool \<Rightarrow> fl" where
  "of_mask b = (if b then Fin 1 else Fin 0)"

text \<open>
  \<^verbatim>\<open>np.isclose(a, b)\<close> with its defaults \<^verbatim>\<open>rtol=1e-05, atol=1e-08, equal_nan=False\<close>:
  finite values are compared with the tolerance, anything else by \<^verbatim>\<open>==\<close>.
\<close>

fun isclose :: "fl \<Rightarrow> fl \<Rightarrow> bool" where
  "isclose (Fin a) (Fin b) = (\<bar>a - b\<bar> \<le> 1 / 10 ^ 8 + (1 / 10 ^ 5) * \<bar>b\<bar>)"
| "isclose a b = feq a b"

subsection \<open>Errors and array arithmetic\<close>

datatype error = AssertionError | AttributeError | ValueError | IndexError | KeyError

definition bindE :: "error + 'a \<Rightarrow> ('a \<Rightarrow> error + 'b) \<Rightarrow> error + 'b" where
  "bindE m f = (case m of Inl e \<Rightarrow> Inl e | Inr v \<Rightarrow> f v)"

text \<open>
  An elementwise operation on two one-dimensional arrays, with numpy's broadcasting:
  equal lengths pair up, an array of length 1 is stretched, anything else raises
  \<^verbatim>\<open>ValueError\<close>.
\<close>

definition bc2 :: "('a \<Rightarrow> 'b \<Rightarrow> 'c) \<Rightarrow> 'a list \<Rightarrow> 'b list \<Rightarrow> error + 'c list" where
  "bc2 f xs ys =
     (if length xs = length ys then Inr (map2 f xs ys)
      else if length xs = 1 then Inr (map (f (hd xs)) ys)
      else if length ys = 1 then Inr (map (\<lambda>x. f x (hd ys)) xs)
      else Inl ValueError)"

subsection \<open>Data\<close>

text \<open>
  A substance: per component, its SARA type (\<^verbatim>\<open>substance._sara['type']\<close>), its
  molecular weight and its density.
\<close>

record substance =
  sara_type :: "string list"
  molecular_weight :: "fl list"
  component_density :: "fl list"

text \<open>
  The arrays of one substance (\<^verbatim>\<open>data\<close>, as \<^verbatim>\<open>sc.itersubstancedata\<close> yields
  it): one row per element.
\<close>

record element_data =
  mass :: "fl list"
  mass_components :: "fl list list"
  density :: "fl list"
  viscosity :: "fl list"
  droplet_avg_size :: "fl list"
  partition_coeff :: "fl list"
  spill_num :: "int list"

text \<open>
  The environment provider \<^verbatim>\<open>self.waves\<close>: \<^verbatim>\<open>waves.water.get('density')\<close>,
  \<^verbatim>\<open>waves.peak_wave_period(t)\<close>, \<^verbatim>\<open>waves.get_value(t)[0]\<close> and
  \<^verbatim>\<open>waves.wind.get_value(t)[0]\<close>. Every call is a query, recorded in a log.
\<close>

record waves =
  water_density :: fl
  peak_wave_period :: "int \<Rightarrow> fl"
  get_value :: "int \<Rightarrow> fl"
  wind_get_value :: "int \<Rightarrow> fl"

datatype query =
  Q_water_density | Q_peak_wave_period int | Q_wave_height int | Q_wind_speed int

text \<open>
  The physical property models of \<^verbatim>\<open>gnome.utilities.weathering\<close>
  (\<^verbatim>\<open>LeeHuibers.partition_coeff\<close>, \<^verbatim>\<open>Stokes.water_phase_xfer_velocity\<close>,
  \<^verbatim>\<open>DelvigneSweeney.breaking_waves_frac\<close>,
  \<^verbatim>\<open>DingFarmer.water_column_time_fraction\<close>) are imported by the source but
  defined elsewhere. They are parameters here: pure functions of numbers.
\<close>

record models =
  LeeHuibers_partition_coeff :: "fl \<Rightarrow> fl \<Rightarrow> fl"
  Stokes_water_phase_xfer_velocity :: "fl \<Rightarrow> fl \<Rightarrow> fl"
  DelvigneSweeney_breaking_waves_frac :: "fl \<Rightarrow> fl \<Rightarrow> fl"
  DingFarmer_water_column_time_fraction :: "fl \<Rightarrow> fl \<Rightarrow> fl \<Rightarrow> fl \<Rightarrow> fl"

text \<open>
  The process: its \<^verbatim>\<open>on\<close> and \<^verbatim>\<open>active\<close> flags (set by the base class
  \<^verbatim>\<open>Weatherer\<close>) and its \<^verbatim>\<open>waves\<close> attribute, \<^verbatim>\<open>None\<close> by default.
\<close>

record dissolution =
  on :: bool
  active :: bool
  waves :: "waves option"

text \<open>
  The spill container \<^verbatim>\<open>sc\<close>: the number of released elements, the mass-balance
  ledger and, per substance, its arrays.
\<close>

record spill_container =
  num_released :: int
  mass_balance :: "string \<rightharpoonup> fl"
  substances :: "(substance \<times> element_data) list"

subsection \<open>The per-element computation of \<^verbatim>\<open>dissolve_oil\<close>\<close>

text \<open>\<^verbatim>\<open>oil_avg_density\<close>: asserts equal shapes, then the mass-weighted density.\<close>

definition oil_avg_density :: "fl list \<Rightarrow> fl list \<Rightarrow> error + fl" where
  "oil_avg_density masses densities =
     (if length masses \<noteq> length densities then Inl AssertionError
      else Inr (fsum (map2 fmul (map (\<lambda>m. fdiv m (fsum masses)) masses) densities)))"

text \<open>\<^verbatim>\<open>beta_coeff\<close>: \<^verbatim>\<open>-4.84 * k_w / K_ow * v_inert ** (2.0 / 3.0)\<close>.\<close>

definition beta_coeff :: "fl \<Rightarrow> fl \<Rightarrow> fl \<Rightarrow> fl" where
  "beta_coeff k_w K_ow v_inert =
     fmul (fdiv (fmul (Fin (- (484 / 100))) k_w) K_ow) (fpow v_inert (2 / 3))"

text \<open>
  \<^verbatim>\<open>water_column_time_fraction\<close>: three queries to the provider, then the two
  models. It returns the fraction and the queries it made.
\<close>

definition water_column_time_fraction ::
  "waves \<Rightarrow> models \<Rightarrow> int \<Rightarrow> fl \<Rightarrow> fl \<times> query list" where
  "water_column_time_fraction w M model_time water_phase_xfer_velocity =
     (let wave_period = peak_wave_period w model_time;
          wave_height = get_value w model_time;
          wind_speed = wind_get_value w model_time;
          f_bw = DelvigneSweeney_breaking_waves_frac M wind_speed wave_period;
          f_wc = DingFarmer_water_column_time_fraction M f_bw wave_period wave_height
                   water_phase_xfer_velocity
      in (f_wc, [Q_peak_wave_period model_time, Q_wave_height model_time,
                 Q_wind_speed model_time]))"

text \<open>
  The overall partition coefficient of one element, from its component masses \<open>m\<close>:
  \<^verbatim>\<open>np.sum(m * K_ow_comp / mol_wt) / np.sum(m / mol_wt)\<close>.
\<close>

definition overall_K_ow :: "fl list \<Rightarrow> fl list \<Rightarrow> fl list \<Rightarrow> error + fl" where
  "overall_K_ow m K_ow_comp mol_wt =
     bindE (bc2 fmul m K_ow_comp) (\<lambda>mk.
     bindE (bc2 fdiv mk mol_wt) (\<lambda>num.
     bindE (bc2 fdiv m mol_wt) (\<lambda>den.
     Inr (fdiv (fsum num) (fsum den)))))"

text \<open>
  The rest of the loop body, after \<open>K_ow\<close> has been stored: average density, water
  density, transfer velocity, the volumes and their assertion, \<open>beta\<close>, the rate, the
  time spent in the water column and the mass dissipated. The source prints
  \<^verbatim>\<open>mass_dissipated\<close> and does nothing else with it; here it is returned with the
  queries made, so that it can be talked about.
\<close>

definition element_flux ::
  "dissolution \<Rightarrow> models \<Rightarrow> int \<Rightarrow> fl \<Rightarrow> bool list \<Rightarrow> fl list \<Rightarrow> fl list \<Rightarrow> fl \<Rightarrow> fl
     \<Rightarrow> error + (fl \<times> query list)" where
  "element_flux self M model_time time_step arom_mask rho m drop_sizes K_ow =
     bindE (oil_avg_density m rho) (\<lambda>avg_rho.
     case waves self of
       None \<Rightarrow> Inl AttributeError
     | Some w \<Rightarrow>
         (let water_rho = water_density w;
              k_w = Stokes_water_phase_xfer_velocity M (fsub water_rho avg_rho) drop_sizes
          in bindE (bc2 fdiv m rho) (\<lambda>vol.
             bindE (bc2 fmul vol (map of_mask arom_mask)) (\<lambda>avol.
             bindE (bc2 fmul vol (map (\<lambda>b. of_mask (\<not> b)) arom_mask)) (\<lambda>svol.
               (let total_volume = fsum vol;
                    aromatic_volume = fsum avol;
                    S_RA_volume = fsum svol;
                    X = fdiv aromatic_volume S_RA_volume
                in if \<not> isclose (fadd aromatic_volume S_RA_volume) total_volume
                   then Inl AssertionError
                   else
                     (let beta = beta_coeff k_w K_ow S_RA_volume;
                          dX_dt = fdiv (fmul beta X) (fpow (fadd X (Fin 1)) (1 / 3));
                          (f_wc, qs) = water_column_time_fraction w M model_time k_w;
                          time_spent_in_wc = fmul f_wc time_step;
                          mass_dissipated = fmul dX_dt time_spent_in_wc
                      in Inr (mass_dissipated, Q_water_density # qs))))))))"

text \<open>
  The loop \<^verbatim>\<open>for idx, (m, drop_sizes) in enumerate(zip(fmass, droplet_avg_size))\<close>.
  It threads the array \<^verbatim>\<open>data['partition_coeff']\<close> (written at \<open>idx\<close>; an index
  past its end raises \<^verbatim>\<open>IndexError\<close>) and the log of queries.
\<close>

fun dissolve_loop ::
  "dissolution \<Rightarrow> models \<Rightarrow> int \<Rightarrow> fl \<Rightarrow> bool list \<Rightarrow> fl list \<Rightarrow> fl list \<Rightarrow> fl list
     \<Rightarrow> nat \<Rightarrow> (fl list \<times> fl) list \<Rightarrow> fl list \<Rightarrow> query list
     \<Rightarrow> error + (fl list \<times> query list)" where
  "dissolve_loop self M model_time time_step arom_mask K_ow_comp mol_wt rho idx [] pc qlog =
     Inr (pc, qlog)"
| "dissolve_loop self M model_time time_step arom_mask K_ow_comp mol_wt rho idx
     ((m, drop_sizes) # rest) pc qlog =
     bindE (overall_K_ow m K_ow_comp mol_wt) (\<lambda>K_ow.
       if \<not> idx < length pc then Inl IndexError
       else
         bindE (element_flux self M model_time time_step arom_mask rho m drop_sizes K_ow)
           (\<lambda>(mass_dissipated, qs).
              dissolve_loop self M model_time time_step arom_mask K_ow_comp mol_wt rho
                (Suc idx) rest (pc[idx := K_ow]) (qlog @ qs)))"

subsection \<open>\<^verbatim>\<open>dissolve_oil\<close>\<close>

text \<open>
  It returns the array \<^verbatim>\<open>diss\<close>, which is \<^verbatim>\<open>np.zeros(len(data['mass']))\<close>; the
  model returns with it the data (whose \<^verbatim>\<open>partition_coeff\<close> the loop has written)
  and the queries made.
\<close>

definition dissolve_oil ::
  "dissolution \<Rightarrow> models \<Rightarrow> element_data \<Rightarrow> substance \<Rightarrow> int \<Rightarrow> fl
     \<Rightarrow> error + (element_data \<times> fl list \<times> query list)" where
  "dissolve_oil self M data substance model_time time_step =
     (let fmass = mass_components data;
          drop_avg = droplet_avg_size data;
          arom_mask = map (\<lambda>t. t = ''Aromatics'') (sara_type substance);
          mol_wt = molecular_weight substance;
          rho = component_density substance
      in if length mol_wt \<noteq> length rho then Inl AssertionError
         else
           bindE (bc2 fmul (map of_mask arom_mask)
                    (map2 (LeeHuibers_partition_coeff M) mol_wt rho)) (\<lambda>K_ow_comp.
           bindE (dissolve_loop self M model_time time_step arom_mask K_ow_comp mol_wt rho
                    0 (zip fmass drop_avg) (partition_coeff data) [])
             (\<lambda>(pc, qlog).
                Inr (data\<lparr>partition_coeff := pc\<rparr>,
                     replicate (length (mass data)) (Fin 0), qlog))))"

subsection \<open>\<^verbatim>\<open>weather_elements\<close>\<close>

text \<open>
  The fraction of mass lost, from \<^verbatim>\<open>np.sum(diss[:])\<close> and \<^verbatim>\<open>data['mass'].sum()\<close>:
  clamped to 1, and 0 when the total mass is not positive.
\<close>

definition diss_mass_frac :: "fl \<Rightarrow> fl \<Rightarrow> fl" where
  "diss_mass_frac diss_sum mass_sum =
     (if fgt mass_sum (Fin 0)
      then (let f = fdiv diss_sum mass_sum in if fgt f (Fin 1) then Fin 1 else f)
      else Fin 0)"

text \<open>
  The body of the loop over substances. A substance with no element is skipped. The
  ledger entry \<^verbatim>\<open>sc.mass_balance['dissolution']\<close> is read and written
  (\<^verbatim>\<open>KeyError\<close> when it is missing), the component masses are scaled and the masses
  recomputed as the row sums.
\<close>

definition weather_substance ::
  "dissolution \<Rightarrow> models \<Rightarrow> int \<Rightarrow> fl \<Rightarrow> substance \<Rightarrow> element_data \<Rightarrow> (string \<rightharpoonup> fl)
     \<Rightarrow> error + (element_data \<times> (string \<rightharpoonup> fl) \<times> query list)" where
  "weather_substance self M model_time time_step substance data mb =
     (if length (mass data) = 0 then Inr (data, mb, [])
      else
        bindE (dissolve_oil self M data substance model_time time_step)
          (\<lambda>(data1, diss, qlog).
             case mb ''dissolution'' of
               None \<Rightarrow> Inl KeyError
             | Some v \<Rightarrow>
                 (let mb' = mb(''dissolution'' \<mapsto> fadd v (fsum diss));
                      frac = diss_mass_frac (fsum diss) (fsum (mass data1));
                      mc = map (map (fmul (fsub (Fin 1) frac))) (mass_components data1)
                  in Inr (data1\<lparr>mass_components := mc, mass := map fsum mc\<rparr>, mb', qlog))))"

fun weather_loop ::
  "dissolution \<Rightarrow> models \<Rightarrow> int \<Rightarrow> fl \<Rightarrow> (substance \<times> element_data) list
     \<Rightarrow> (string \<rightharpoonup> fl) \<Rightarrow> query list
     \<Rightarrow> error + ((substance \<times> element_data) list \<times> (string \<rightharpoonup> fl) \<times> query list)" where
  "weather_loop self M model_time time_step [] mb qlog = Inr ([], mb, qlog)"
| "weather_loop self M model_time time_step ((substance, data) # rest) mb qlog =
     bindE (weather_substance self M model_time time_step substance data mb)
       (\<lambda>(data', mb', qs).
          bindE (weather_loop self M model_time time_step rest mb' (qlog @ qs))
            (\<lambda>(rest', mb'', qlog'). Inr ((substance, data') # rest', mb'', qlog')))"

text \<open>
  \<^verbatim>\<open>weather_elements\<close>: nothing when the process is not active or nothing has been
  released; else the loop, whose arrays \<^verbatim>\<open>sc.update_from_fatedataview()\<close> writes
  back to the container. The result is the container and the queries made.
\<close>

definition weather_elements ::
  "dissolution \<Rightarrow> models \<Rightarrow> spill_container \<Rightarrow> fl \<Rightarrow> int
     \<Rightarrow> error + (spill_container \<times> query list)" where
  "weather_elements self M sc time_step model_time =
     (if \<not> active self then Inr (sc, [])
      else if num_released sc = 0 then Inr (sc, [])
      else
        bindE (weather_loop self M model_time time_step (substances sc) (mass_balance sc) [])
          (\<lambda>(subs, mb, qlog). Inr (sc\<lparr>substances := subs, mass_balance := mb\<rparr>, qlog)))"

subsection \<open>\<^verbatim>\<open>initialize_data\<close>\<close>

text \<open>
  The body of the loop of \<^verbatim>\<open>_initialize_k_ow\<close> for one substance: the mask of the
  rows whose coefficient is 0, \<^verbatim>\<open>num_initialized += len(mask)\<close>, and for every spill
  number among the masked rows, the assignment of 0 to the masked rows of that spill.
  Indexing \<^verbatim>\<open>data['spill_num']\<close> by a mask of another length raises
  \<^verbatim>\<open>IndexError\<close>.
\<close>

definition set_masked :: "bool list \<Rightarrow> fl \<Rightarrow> fl list \<Rightarrow> fl list" where
  "set_masked s_mask v xs = map2 (\<lambda>sel x. if sel then v else x) s_mask xs"

definition initialize_substance :: "element_data \<Rightarrow> nat \<Rightarrow> error + (element_data \<times> nat)" where
  "initialize_substance data num_initialized =
     (if length (partition_coeff data) = 0 then Inr (data, num_initialized)
      else
        (let mask = map (\<lambda>x. feq x (Fin 0)) (partition_coeff data);
             num_initialized' = num_initialized + length mask
         in if length (spill_num data) \<noteq> length mask then Inl IndexError
            else
              (let s_nums = sort (remdups (map snd (filter fst (zip mask (spill_num data)))));
                   pc = fold (\<lambda>s_num pc.
                          set_masked (map2 (\<lambda>b s. b \<and> s = s_num) mask (spill_num data))
                            (Fin 0) pc)
                        s_nums (partition_coeff data)
               in Inr (data\<lparr>partition_coeff := pc\<rparr>, num_initialized'))))"

fun initialize_loop ::
  "(substance \<times> element_data) list \<Rightarrow> nat
     \<Rightarrow> error + ((substance \<times> element_data) list \<times> nat)" where
  "initialize_loop [] num_initialized = Inr ([], num_initialized)"
| "initialize_loop ((substance, data) # rest) num_initialized =
     bindE (initialize_substance data num_initialized) (\<lambda>(data', n).
       bindE (initialize_loop rest n) (\<lambda>(rest', n').
         Inr ((substance, data') # rest', n')))"

text \<open>
  \<^verbatim>\<open>_initialize_k_ow\<close> (without its underscore, which cannot start a name here):
  the loop, then \<^verbatim>\<open>assert num_initialized == num_released\<close>. The argument is
  written \<open>num_released'\<close>, to tell it from the field of the container.
\<close>

definition initialize_k_ow :: "spill_container \<Rightarrow> int \<Rightarrow> error + spill_container" where
  "initialize_k_ow sc num_released' =
     bindE (initialize_loop (substances sc) 0) (\<lambda>(subs, num_initialized).
       if int num_initialized \<noteq> num_released' then Inl AssertionError
       else Inr (sc\<lparr>substances := subs\<rparr>))"

definition initialize_data ::
  "dissolution \<Rightarrow> spill_container \<Rightarrow> int \<Rightarrow> error + spill_container" where
  "initialize_data self sc num_released' =
     (if \<not> on self then Inr sc else initialize_k_ow sc num_released')"

subsection \<open>Predicates of the specification\<close>

text \<open>Equality within a relative tolerance of \<open>1e-9\<close>; it never holds of a non-finite value.\<close>

fun within_tol :: "fl \<Rightarrow> fl \<Rightarrow> bool" where
  "within_tol (Fin a) (Fin b) = (\<bar>a - b\<bar> \<le> (1 / 10 ^ 9) * max \<bar>a\<bar> \<bar>b\<bar>)"
| "within_tol a b = False"

text \<open>
  The component-sum invariant of an element batch: every row of component masses sums
  to the row's total mass, within the tolerance.
\<close>

definition component_sum_ok :: "element_data \<Rightarrow> bool" where
  "component_sum_ok d =
     list_all2 (\<lambda>row m. within_tol (fsum row) m) (mass_components d) (mass d)"

definition component_sum_inv :: "spill_container \<Rightarrow> bool" where
  "component_sum_inv sc = list_all (\<lambda>(s, d). component_sum_ok d) (substances sc)"

text \<open>
  The same invariant as the code itself establishes it: the total masses are the row sums
  of the component masses, all of them finite.
\<close>

definition rows_exact :: "element_data \<Rightarrow> bool" where
  "rows_exact d =
     (mass d = map fsum (mass_components d) \<and> list_all (list_all is_finite) (mass_components d))"

text \<open>A finite number that is not negative.\<close>

fun nonneg :: "fl \<Rightarrow> bool" where
  "nonneg (Fin x) = (0 \<le> x)"
| "nonneg x = False"

definition masses_nonneg :: "element_data \<Rightarrow> bool" where
  "masses_nonneg d = (list_all nonneg (mass d) \<and> list_all (list_all nonneg) (mass_components d))"

text \<open>
  The overall partition coefficient in the words of the specification: every component
  has a partition value, which is zero for a component that is not aromatic; every
  component is weighted by its mass divided by its molecular weight; the weighted values
  are summed and normalised by the sum of the weights.
\<close>

definition K_ow_spec :: "models \<Rightarrow> substance \<Rightarrow> fl list \<Rightarrow> fl" where
  "K_ow_spec M s m =
     (let weight = map2 fdiv m (molecular_weight s);
          pvalue = map2 (\<lambda>ty (mw, rho).
                     if ty = ''Aromatics'' then LeeHuibers_partition_coeff M mw rho else Fin 0)
                   (sara_type s) (zip (molecular_weight s) (component_density s))
      in fdiv (fsum (map2 fmul weight pvalue)) (fsum weight))"

text \<open>
  Well-formed arrays: the substance has one type, molecular weight and density per
  component, the densities are finite and not zero, every element has one finite mass per
  component, a droplet size and a coefficient.
\<close>

definition well_formed :: "substance \<Rightarrow> element_data \<Rightarrow> bool" where
  "well_formed s d =
     (let k = length (molecular_weight s); n = length (mass_components d)
      in length (sara_type s) = k \<and> length (component_density s) = k \<and>
         length (droplet_avg_size d) = n \<and> length (partition_coeff d) = n \<and>
         list_all (\<lambda>rho. is_finite rho \<and> rho \<noteq> Fin 0) (component_density s) \<and>
         list_all (\<lambda>row. length row = k \<and> list_all is_finite row) (mass_components d))"

text \<open>The four queries that the loop body makes for one element.\<close>

definition step_queries :: "int \<Rightarrow> query list" where
  "step_queries t = [Q_water_density, Q_peak_wave_period t, Q_wave_height t, Q_wind_speed t]"

text \<open>
  What one run of the loop body of \<^verbatim>\<open>weather_elements\<close> does to the arrays of a
  substance: nothing when it has no element; else the coefficients are rewritten and the
  masses become the row sums of the component masses, which stay as they are.
\<close>

definition stepped :: "element_data \<Rightarrow> element_data \<Rightarrow> bool" where
  "stepped d d' =
     (if mass d = [] then d' = d
      else d' = d\<lparr>partition_coeff := partition_coeff d',
                   mass := map fsum (mass_components d)\<rparr>
           \<and> length (partition_coeff d') = length (partition_coeff d))"

subsection \<open>Concrete inputs\<close>

text \<open>
  The scenario of the specification: one element of a substance with an aromatic
  component (mass 50, molecular weight 178) and a non-aromatic one (mass 50, molecular
  weight 300), oil density 900, droplet size \<open>5e-5\<close>, water density 1025, wind speed
  8, wave height 1.2, wave period 6; the step lasts 900 s.
\<close>

definition scenario_substance :: substance where
  "scenario_substance =
     \<lparr>sara_type = [''Aromatics'', ''Saturates''],
      molecular_weight = [Fin 178, Fin 300],
      component_density = [Fin 900, Fin 900]\<rparr>"

definition scenario_data :: element_data where
  "scenario_data =
     \<lparr>mass = [Fin 100], mass_components = [[Fin 50, Fin 50]],
      density = [Fin 900], viscosity = [Fin (1 / 10 ^ 4)],
      droplet_avg_size = [Fin (5 / 10 ^ 5)], partition_coeff = [Fin 0], spill_num = [0]\<rparr>"

definition scenario_waves :: waves where
  "scenario_waves =
     \<lparr>water_density = Fin 1025, peak_wave_period = (\<lambda>t. Fin 6),
      get_value = (\<lambda>t. Fin (12 / 10)), wind_get_value = (\<lambda>t. Fin 8)\<rparr>"

definition scenario_self :: dissolution where
  "scenario_self = \<lparr>on = True, active = True, waves = Some scenario_waves\<rparr>"

definition scenario_sc :: spill_container where
  "scenario_sc =
     \<lparr>num_released = 1, mass_balance = [''dissolution'' \<mapsto> Fin 0],
      substances = [(scenario_substance, scenario_data)]\<rparr>"

text \<open>
  Stand-ins for the four imported models, to run the code on concrete inputs: each
  returns a fixed positive number.
\<close>

definition example_models :: models where
  "example_models =
     \<lparr>LeeHuibers_partition_coeff = (\<lambda>mol_wt rho. Fin 1000),
      Stokes_water_phase_xfer_velocity = (\<lambda>delta_rho diameter. Fin (1 / 1000)),
      DelvigneSweeney_breaking_waves_frac = (\<lambda>wind_speed wave_period. Fin (1 / 10)),
      DingFarmer_water_column_time_fraction = (\<lambda>f_bw wave_period wave_height k_w. Fin (1 / 2))\<rparr>"

text \<open>The scenario with an element that has lost all of its mass.\<close>

definition depleted_data :: element_data where
  "depleted_data = scenario_data\<lparr>mass := [Fin 0], mass_components := [[Fin 0, Fin 0]]\<rparr>"

definition depleted_sc :: spill_container where
  "depleted_sc = scenario_sc\<lparr>substances := [(scenario_substance, depleted_data)]\<rparr>"

text \<open>
  A container of five elements of which three are newly released (their coefficient is
  the sentinel 0) and two are older.
\<close>

definition five_rows_data :: element_data where
  "five_rows_data =
     \<lparr>mass = replicate 5 (Fin 100), mass_components = replicate 5 [Fin 50, Fin 50],
      density = replicate 5 (Fin 900), viscosity = replicate 5 (Fin (1 / 10 ^ 4)),
      droplet_avg_size = replicate 5 (Fin (5 / 10 ^ 5)),
      partition_coeff = [Fin 0, Fin 0, Fin 0, Fin 850, Fin 850],
      spill_num = [0, 0, 0, 0, 0]\<rparr>"

definition five_rows_sc :: spill_container where
  "five_rows_sc =
     \<lparr>num_released = 5, mass_balance = [''dissolution'' \<mapsto> Fin 0],
      substances = [(scenario_substance, five_rows_data)]\<rparr>"

text \<open>The process switched off, and the process on but outside its time window.\<close>

definition off_self :: dissolution where
  "off_self = scenario_self\<lparr>on := False, active := False\<rparr>"

definition idle_self :: dissolution where
  "idle_self = scenario_self\<lparr>active := False\<rparr>"

text \<open>A substance batch with no element, and the process with no provider.\<close>

definition empty_data :: element_data where
  "empty_data =
     \<lparr>mass = [], mass_components = [], density = [], viscosity = [],
      droplet_avg_size = [], partition_coeff = [], spill_num = []\<rparr>"

definition no_waves_self :: dissolution where
  "no_waves_self = scenario_self\<lparr>waves := None\<rparr>"

subsection \<open>Observations\<close>

text \<open>What a run of the loop over substances leaves of the ledger and the queries.\<close>

definition ledger_and_queries ::
  "error + ((substance \<times> element_data) list \<times> (string \<rightharpoonup> fl) \<times> query list)
     \<Rightarrow> error + ((string \<rightharpoonup> fl) \<times> query list)" where
  "ledger_and_queries r = (case r of Inl e \<Rightarrow> Inl e | Inr (subs, mb, q) \<Rightarrow> Inr (mb, q))"

text \<open>The mass held by all elements of the container.\<close>

definition container_mass :: "spill_container \<Rightarrow> fl" where
  "container_mass sc = fsum (map (\<lambda>(s, d). fsum (mass d)) (substances sc))"

text \<open>The scenario after one step with the stand-in models.\<close>

definition scenario_after_data :: element_data where
  "scenario_after_data = scenario_data\<lparr>partition_coeff := [Fin (150000 / 239)]\<rparr>"

definition scenario_after :: spill_container where
  "scenario_after = scenario_sc\<lparr>substances := [(scenario_substance, scenario_after_data)]\<rparr>"

text \<open>
  An element whose coefficient will be zero: all of its mass is in the component that
  is not aromatic; its droplet size is zero as well.
\<close>

definition saturates_only_data :: element_data where
  "saturates_only_data =
     scenario_data\<lparr>mass := [Fin 50], mass_components := [[Fin 0, Fin 50]],
                   droplet_avg_size := [Fin 0], partition_coeff := [Fin 850]\<rparr>"

definition saturates_only_sc :: spill_container where
  "saturates_only_sc = scenario_sc\<lparr>substances := [(scenario_substance, saturates_only_data)]\<rparr>"

section \<open>Auxiliary facts\<close>

subsection \<open>Arithmetic and results\<close>


lemma fmul_one [simp]: "fmul (Fin 1) x = x"
  by (cases x) simp_all

lemma fmul_one_fun [simp]: "fmul (Fin 1) = (\<lambda>x. x)"
  by (rule ext) simp

lemma fadd_zero [simp]: "fadd x (Fin 0) = x"
  by (cases x) simp_all

lemma fsum_replicate_zero [simp]: "fsum (replicate n (Fin 0)) = Fin 0"
  by (induction n) simp_all

lemma diss_mass_frac_zero [simp]: "diss_mass_frac (Fin 0) s = Fin 0"
  by (cases s) (simp_all add: diss_mass_frac_def)

lemma fsub_one_zero [simp]: "fsub (Fin 1) (Fin 0) = Fin 1"
  by (simp add: fsub_def)

lemma bindE_Inr_iff: "bindE m f = Inr r \<longleftrightarrow> (\<exists>v. m = Inr v \<and> f v = Inr r)"
  by (cases m) (simp_all add: bindE_def)

lemma dissolve_loop_length:
  "dissolve_loop self M t dt am K mw rho idx rows pc qlog = Inr (pc', qlog') \<Longrightarrow> length pc' = length pc"
proof (induction rows arbitrary: idx pc qlog)
  case Nil
  then show ?case by simp
next
  case (Cons row rows)
  obtain m d where row: "row = (m, d)" by (cases row)
  from Cons.prems show ?case
    unfolding row
    by (auto simp: bindE_Inr_iff split: if_splits dest!: Cons.IH)
qed

lemma dissolve_oil_result:
  assumes "dissolve_oil self M data substance t dt = Inr (data', diss, qlog)"
  shows "diss = replicate (length (mass data)) (Fin 0)"
    and "\<exists>pc. data' = data\<lparr>partition_coeff := pc\<rparr> \<and> length pc = length (partition_coeff data)"
  using assms
  by (auto simp: dissolve_oil_def Let_def bindE_Inr_iff split: if_splits dest: dissolve_loop_length)

lemma weather_substance_skip:
  "length (mass data) = 0 \<Longrightarrow>
   weather_substance self M t dt substance data mb = Inr (data, mb, [])"
  by (simp add: weather_substance_def)

lemma weather_substance_result:
  assumes ws: "weather_substance self M t dt substance data mb = Inr (data', mb', qlog)"
    and ne: "length (mass data) \<noteq> 0"
  shows "\<exists>pc v. dissolve_oil self M data substance t dt
            = Inr (data\<lparr>partition_coeff := pc\<rparr>, replicate (length (mass data)) (Fin 0), qlog)
          \<and> length pc = length (partition_coeff data)
          \<and> mb ''dissolution'' = Some v
          \<and> mb' = mb
          \<and> data' = data\<lparr>partition_coeff := pc, mass := map fsum (mass_components data)\<rparr>"
proof (cases "dissolve_oil self M data substance t dt")
  case (Inl e)
  with ws ne show ?thesis by (simp add: weather_substance_def bindE_def)
next
  case (Inr r)
  obtain data1 diss q where r: "r = (data1, diss, q)" by (cases r)
  from dissolve_oil_result [OF Inr [unfolded r]] obtain pc where
    diss: "diss = replicate (length (mass data)) (Fin 0)"
    and data1: "data1 = data\<lparr>partition_coeff := pc\<rparr>"
    and len: "length pc = length (partition_coeff data)"
    by blast
  show ?thesis
  proof (cases "mb ''dissolution''")
    case None
    with ws ne Inr r show ?thesis by (simp add: weather_substance_def bindE_def)
  next
    case (Some v)
    have same: "mb(''dissolution'' \<mapsto> v) = mb"
      using Some by (simp add: map_upd_triv)
    from ws ne Inr r Some diss data1 same
    have "q = qlog" "mb' = mb"
      "data' = data\<lparr>partition_coeff := pc, mass := map fsum (mass_components data)\<rparr>"
      by (auto simp: weather_substance_def bindE_def Let_def comp_def)
    with Inr r diss data1 len Some show ?thesis
      by (intro exI [of _ pc] exI [of _ v]) simp
  qed
qed



lemma bc2_same_length: "length xs = length ys \<Longrightarrow> bc2 f xs ys = Inr (map2 f xs ys)"
  by (simp add: bc2_def)

lemma bindE_Inr [simp]: "bindE (Inr v) f = f v"
  by (simp add: bindE_def)

lemma bindE_Inl [simp]: "bindE (Inl e) f = Inl e"
  by (simp add: bindE_def)

lemma of_mask_simps [simp]: "of_mask True = Fin 1" "of_mask False = Fin 0"
  by (simp_all add: of_mask_def)

lemma volumes_split:
  assumes "length m = length rho" and "length rho = length am"
    and "list_all is_finite m"
    and "list_all (\<lambda>r. is_finite r \<and> r \<noteq> Fin 0) rho"
  shows "\<exists>a s. fsum (map2 fmul (map2 fdiv m rho) (map of_mask am)) = Fin a
            \<and> fsum (map2 fmul (map2 fdiv m rho) (map (\<lambda>b. of_mask (\<not> b)) am)) = Fin s
            \<and> fsum (map2 fdiv m rho) = Fin (a + s)"
  using assms
proof (induction m rho am rule: list_induct3)
  case Nil
  then show ?case by simp
next
  case (Cons x xs r rs b bs)
  from Cons.prems obtain xv rv where x: "x = Fin xv" and r: "r = Fin rv" and rv: "rv \<noteq> 0"
    by (cases x; cases r) auto
  from Cons.IH Cons.prems obtain a s where
    IH: "fsum (map2 fmul (map2 fdiv xs rs) (map of_mask bs)) = Fin a"
      "fsum (map2 fmul (map2 fdiv xs rs) (map (\<lambda>b. of_mask (\<not> b)) bs)) = Fin s"
      "fsum (map2 fdiv xs rs) = Fin (a + s)"
    by auto
  have mul0: "fmul (Fin (xv / rv)) (Fin 0) = Fin 0" by simp
  have mul1: "fmul (Fin (xv / rv)) (Fin 1) = Fin (xv / rv)" by simp
  show ?case
  proof (cases b)
    case True
    with x r rv IH show ?thesis
      by (intro exI [of _ "xv / rv + a"] exI [of _ s] conjI; simp)
  next
    case False
    with x r rv IH show ?thesis
      by (intro exI [of _ a] exI [of _ "xv / rv + s"] conjI; simp)
  qed
qed

lemma element_flux_succeeds:
  assumes w: "waves self = Some w"
    and len: "length m = length rho" "length rho = length am"
    and fin: "list_all is_finite m" "list_all (\<lambda>r. is_finite r \<and> r \<noteq> Fin 0) rho"
  shows "\<exists>md. element_flux self M t dt am rho m ds K
           = Inr (md, [Q_water_density, Q_peak_wave_period t, Q_wave_height t, Q_wind_speed t])"
proof -
  from volumes_split [OF len fin] obtain a s where
    v: "fsum (map2 fmul (map2 fdiv m rho) (map of_mask am)) = Fin a"
      "fsum (map2 fmul (map2 fdiv m rho) (map (\<lambda>b. of_mask (\<not> b)) am)) = Fin s"
      "fsum (map2 fdiv m rho) = Fin (a + s)"
    by blast
  show ?thesis
    using w len v
    by (simp add: element_flux_def oil_avg_density_def bc2_same_length Let_def
        water_column_time_fraction_def)
qed



lemma overall_K_ow_same_length:
  "length m = length mw \<Longrightarrow> length K = length mw \<Longrightarrow>
   overall_K_ow m K mw
     = Inr (fdiv (fsum (map2 fdiv (map2 fmul m K) mw)) (fsum (map2 fdiv m mw)))"
  by (simp add: overall_K_ow_def bc2_same_length)

lemma dissolve_loop_succeeds:
  assumes w: "waves self = Some w"
    and len: "length K = length mw" "length mw = length rho" "length rho = length am"
    and rho: "list_all (\<lambda>r. is_finite r \<and> r \<noteq> Fin 0) rho"
    and rows: "list_all (\<lambda>(m, d). length m = length mw \<and> list_all is_finite m) rows"
    and room: "idx + length rows \<le> length pc"
  shows "\<exists>pc'. dissolve_loop self M t dt am K mw rho idx rows pc q
           = Inr (pc', q @ concat (map (\<lambda>r. step_queries t) rows))"
  using rows room
proof (induction rows arbitrary: idx pc q)
  case Nil
  then show ?case by simp
next
  case (Cons row rows)
  obtain m d where row: "row = (m, d)" by (cases row)
  from Cons.prems row have m: "length m = length mw" "list_all is_finite m"
    and rest: "list_all (\<lambda>(m, d). length m = length mw \<and> list_all is_finite m) rows"
    and idx: "idx < length pc" "Suc idx + length rows \<le> length pc"
    by simp_all
  let ?K = "fdiv (fsum (map2 fdiv (map2 fmul m K) mw)) (fsum (map2 fdiv m mw))"
  have k: "overall_K_ow m K mw = Inr ?K"
    using m len by (simp add: overall_K_ow_same_length)
  from m len have "length m = length rho" by simp
  from element_flux_succeeds [OF w this len(3) m(2) rho]
  obtain md where f: "element_flux self M t dt am rho m d ?K = Inr (md, step_queries t)"
    unfolding step_queries_def by blast
  from idx have "Suc idx + length rows \<le> length (pc[idx := ?K])" by simp
  from Cons.IH [OF rest this]
  obtain pc' where "dissolve_loop self M t dt am K mw rho (Suc idx) rows (pc[idx := ?K])
      (q @ step_queries t) = Inr (pc', (q @ step_queries t) @ concat (map (\<lambda>r. step_queries t) rows))"
    by blast
  with k f idx row show ?case by simp
qed

lemma dissolve_loop_below:
  "dissolve_loop self M t dt am K mw rho idx rows pc q = Inr (pc', q') \<Longrightarrow>
   i < idx \<Longrightarrow> pc' ! i = pc ! i"
proof (induction rows arbitrary: idx pc q)
  case Nil
  then show ?case by simp
next
  case (Cons row rows)
  obtain m d where row: "row = (m, d)" by (cases row)
  from Cons.prems(1) obtain Kv qs where
    "overall_K_ow m K mw = Inr Kv" "idx < length pc"
    and "dissolve_loop self M t dt am K mw rho (Suc idx) rows (pc[idx := Kv]) (q @ qs)
           = Inr (pc', q')"
    unfolding row by (auto simp: bindE_Inr_iff split: if_splits)
  from Cons.IH [OF this(3)] Cons.prems(2) show ?case by simp
qed

lemma dissolve_loop_stores:
  "dissolve_loop self M t dt am K mw rho idx rows pc q = Inr (pc', q') \<Longrightarrow>
   j < length rows \<Longrightarrow> overall_K_ow (fst (rows ! j)) K mw = Inr (pc' ! (idx + j))"
proof (induction rows arbitrary: idx pc q j)
  case Nil
  then show ?case by simp
next
  case (Cons row rows)
  obtain m d where row: "row = (m, d)" by (cases row)
  from Cons.prems(1) obtain Kv qs where
    k: "overall_K_ow m K mw = Inr Kv" and idx: "idx < length pc"
    and loop: "dissolve_loop self M t dt am K mw rho (Suc idx) rows (pc[idx := Kv]) (q @ qs)
           = Inr (pc', q')"
    unfolding row by (auto simp: bindE_Inr_iff split: if_splits)
  show ?case
  proof (cases j)
    case 0
    from dissolve_loop_below [OF loop, of idx] idx have "pc' ! idx = Kv" by simp
    with 0 k row show ?thesis by simp
  next
    case (Suc j')
    with Cons.prems(2) have "j' < length rows" by simp
    from Cons.IH [OF loop this] Suc show ?thesis by simp
  qed
qed



lemma weather_substance_stepped:
  assumes "weather_substance self M t dt s d mb = Inr (d', mb', q)"
  shows "mb' = mb \<and> stepped d d'"
proof (cases "mass d = []")
  case True
  with assms show ?thesis by (simp add: weather_substance_def stepped_def)
next
  case False
  then have "length (mass d) \<noteq> 0" by simp
  from weather_substance_result [OF assms this] False show ?thesis
    by (auto simp: stepped_def)
qed

lemma weather_loop_result:
  "weather_loop self M t dt subs mb q = Inr (subs', mb', q') \<Longrightarrow>
   mb' = mb \<and> list_all2 (\<lambda>(s, d) (s', d'). s' = s \<and> stepped d d') subs subs'"
proof (induction subs arbitrary: mb q subs')
  case Nil
  then show ?case by simp
next
  case (Cons sd subs)
  obtain s d where sd: "sd = (s, d)" by (cases sd)
  from Cons.prems obtain d1 mb1 qs rest' where
    ws: "weather_substance self M t dt s d mb = Inr (d1, mb1, qs)"
    and wl: "weather_loop self M t dt subs mb1 (q @ qs) = Inr (rest', mb', q')"
    and res: "subs' = (s, d1) # rest'"
    unfolding sd by (auto simp: bindE_Inr_iff)
  from weather_substance_stepped [OF ws] have "mb1 = mb" "stepped d d1" by simp_all
  moreover from Cons.IH [OF wl]
  have "mb' = mb1" "list_all2 (\<lambda>(s, d) (s', d'). s' = s \<and> stepped d d') subs rest'"
    by simp_all
  ultimately show ?case using res sd by simp
qed

lemma weather_elements_cases:
  assumes "weather_elements self M sc dt t = Inr (sc', q)"
  obtains (idle) "\<not> active self \<or> num_released sc = 0" and "sc' = sc" and "q = []"
  | (run) subs' where "active self" and "num_released sc \<noteq> 0"
      and "sc' = sc\<lparr>substances := subs'\<rparr>"
      and "list_all2 (\<lambda>(s, d) (s', d'). s' = s \<and> stepped d d') (substances sc) subs'"
proof (cases "\<not> active self \<or> num_released sc = 0")
  case True
  with assms have "sc' = sc" "q = []"
    by (auto simp: weather_elements_def split: if_splits)
  with True show ?thesis by (rule idle)
next
  case False
  with assms obtain subs' mb' where
    wl: "weather_loop self M t dt (substances sc) (mass_balance sc) [] = Inr (subs', mb', q)"
    and sc': "sc' = sc\<lparr>substances := subs', mass_balance := mb'\<rparr>"
    by (auto simp: weather_elements_def bindE_Inr_iff)
  from weather_loop_result [OF wl] have "mb' = mass_balance sc"
    and rel: "list_all2 (\<lambda>(s, d) (s', d'). s' = s \<and> stepped d d') (substances sc) subs'"
    by simp_all
  with sc' have "sc' = sc\<lparr>substances := subs'\<rparr>" by simp
  with False rel show ?thesis by (intro run) simp_all
qed


subsection \<open>Initialisation leaves the arrays as they are\<close>

lemma feq_zero: "feq x (Fin 0) \<Longrightarrow> x = Fin 0"
  by (cases x) simp_all

lemma set_masked_same:
  assumes "length sn = length pc"
  shows "set_masked (map2 (\<lambda>b s. b \<and> s = s_num) (map (\<lambda>x. feq x (Fin 0)) pc) sn) (Fin 0) pc = pc"
  using assms
  by (auto simp: set_masked_def list_eq_iff_nth_eq dest: feq_zero)

lemma fold_set_masked_same:
  assumes "length sn = length pc"
  shows "fold (\<lambda>s_num pc'. set_masked (map2 (\<lambda>b s. b \<and> s = s_num)
           (map (\<lambda>x. feq x (Fin 0)) pc) sn) (Fin 0) pc') s_nums pc = pc"
proof (induction s_nums)
  case Nil
  show ?case by simp
next
  case (Cons s s_nums)
  with set_masked_same [OF assms] show ?case by simp
qed

lemma initialize_substance_same:
  assumes "initialize_substance d n = Inr (d', n')"
  shows "d' = d"
proof (cases "length (partition_coeff d) = 0")
  case True
  with assms show ?thesis by (simp add: initialize_substance_def)
next
  case False
  with assms have len: "length (spill_num d) = length (partition_coeff d)"
    by (auto simp: initialize_substance_def Let_def split: if_splits)
  from assms False len fold_set_masked_same [OF len] show ?thesis
    by (simp add: initialize_substance_def Let_def)
qed

lemma initialize_loop_same:
  "initialize_loop subs n = Inr (subs', n') \<Longrightarrow> subs' = subs"
proof (induction subs arbitrary: n subs')
  case Nil
  then show ?case by simp
next
  case (Cons sd subs)
  obtain s d where sd: "sd = (s, d)" by (cases sd)
  from Cons.prems obtain d1 n1 rest' where
    a: "initialize_substance d n = Inr (d1, n1)"
    and b: "initialize_loop subs n1 = Inr (rest', n')"
    and c: "subs' = (s, d1) # rest'"
    unfolding sd by (auto simp: bindE_Inr_iff)
  from initialize_substance_same [OF a] Cons.IH [OF b] c sd show ?case by simp
qed

subsection \<open>Substances without elements\<close>

lemma weather_loop_skip_empty:
  "ledger_and_queries (weather_loop self M t dt subs mb q)
     = ledger_and_queries
         (weather_loop self M t dt (filter (\<lambda>(s, d). mass d \<noteq> []) subs) mb q)"
proof (induction subs arbitrary: mb q)
  case Nil
  show ?case by simp
next
  case (Cons sd subs)
  obtain s d where sd: "sd = (s, d)" by (cases sd)
  show ?case
  proof (cases "mass d = []")
    case True
    have "ledger_and_queries (weather_loop self M t dt ((s, d) # subs) mb q)
        = ledger_and_queries (weather_loop self M t dt subs mb q)"
      using True
      by (cases "weather_loop self M t dt subs mb q")
        (auto simp: weather_substance_skip ledger_and_queries_def)
    with True sd Cons.IH show ?thesis by simp
  next
    case False
    show ?thesis
    proof (cases "weather_substance self M t dt s d mb")
      case (Inl e)
      with False sd show ?thesis by (simp add: ledger_and_queries_def)
    next
      case (Inr r)
      obtain d1 mb1 qs where r: "r = (d1, mb1, qs)" by (cases r)
      from Cons.IH [of mb1 "q @ qs"] Inr r False sd show ?thesis
        by (cases "weather_loop self M t dt subs mb1 (q @ qs)";
            cases "weather_loop self M t dt (filter (\<lambda>(s, d). mass d \<noteq> []) subs) mb1 (q @ qs)")
          (auto simp: ledger_and_queries_def)
    qed
  qed
qed

subsection \<open>Well-formed inputs are processed\<close>

lemma dissolve_oil_succeeds:
  assumes w: "waves self = Some w" and wf: "well_formed s d"
  shows "\<exists>pc. length pc = length (partition_coeff d) \<and>
           dissolve_oil self M d s t dt
             = Inr (d\<lparr>partition_coeff := pc\<rparr>, replicate (length (mass d)) (Fin 0),
                    concat (map (\<lambda>r. step_queries t) (mass_components d)))"
proof -
  let ?am = "map (\<lambda>ty. ty = ''Aromatics'') (sara_type s)"
  let ?mw = "molecular_weight s"
  let ?rho = "component_density s"
  let ?K = "map2 fmul (map of_mask ?am) (map2 (LeeHuibers_partition_coeff M) ?mw ?rho)"
  let ?rows = "zip (mass_components d) (droplet_avg_size d)"
  from wf have len: "length (sara_type s) = length ?mw" "length ?rho = length ?mw"
    and n: "length (droplet_avg_size d) = length (mass_components d)"
      "length (partition_coeff d) = length (mass_components d)"
    and rho: "list_all (\<lambda>r. is_finite r \<and> r \<noteq> Fin 0) ?rho"
    and mc: "list_all (\<lambda>row. length row = length ?mw \<and> list_all is_finite row)
               (mass_components d)"
    by (simp_all add: well_formed_def Let_def)
  have K: "bc2 fmul (map of_mask ?am) (map2 (LeeHuibers_partition_coeff M) ?mw ?rho) = Inr ?K"
    using len by (simp add: bc2_same_length)
  have rows: "list_all (\<lambda>(m, d). length m = length ?mw \<and> list_all is_finite m) ?rows"
    using mc by (auto simp: list_all_iff dest: set_zip_leftD)
  have room: "0 + length ?rows \<le> length (partition_coeff d)"
    using n by simp
  have l1: "length ?K = length ?mw" using len by simp
  have l2: "length ?mw = length ?rho" using len by simp
  have l3: "length ?rho = length ?am" using len by simp
  from dissolve_loop_succeeds [OF w l1 l2 l3 rho rows room, of M t dt "[]"]
  obtain pc where loop: "dissolve_loop self M t dt ?am ?K ?mw ?rho 0 ?rows (partition_coeff d) []
      = Inr (pc, [] @ concat (map (\<lambda>r. step_queries t) ?rows))"
    by blast
  have q: "concat (map (\<lambda>r. step_queries t) ?rows)
         = concat (map (\<lambda>r. step_queries t) (mass_components d))"
    using n by (simp add: map_replicate_const)
  from dissolve_loop_length [OF loop] have "length pc = length (partition_coeff d)" .
  moreover have "dissolve_oil self M d s t dt
             = Inr (d\<lparr>partition_coeff := pc\<rparr>, replicate (length (mass d)) (Fin 0),
                    concat (map (\<lambda>r. step_queries t) (mass_components d)))"
    using len K loop q by (simp add: dissolve_oil_def Let_def)
  ultimately show ?thesis by blast
qed

lemma weather_substance_succeeds:
  assumes w: "waves self = Some w" and wf: "well_formed s d"
    and key: "mb ''dissolution'' = Some v"
  shows "\<exists>d' q. weather_substance self M t dt s d mb = Inr (d', mb, q)"
proof (cases "mass d = []")
  case True
  then show ?thesis by (simp add: weather_substance_def)
next
  case False
  from dissolve_oil_succeeds [OF w wf, of M t dt] obtain pc where
    "dissolve_oil self M d s t dt
       = Inr (d\<lparr>partition_coeff := pc\<rparr>, replicate (length (mass d)) (Fin 0),
              concat (map (\<lambda>r. step_queries t) (mass_components d)))"
    by blast
  moreover have "mb(''dissolution'' \<mapsto> v) = mb"
    using key by (simp add: map_upd_triv)
  ultimately show ?thesis
    using False key by (simp add: weather_substance_def Let_def)
qed

lemma weather_loop_succeeds:
  assumes w: "waves self = Some w" and key: "mb ''dissolution'' = Some v"
  shows "list_all (\<lambda>(s, d). well_formed s d) subs \<Longrightarrow>
         \<exists>subs' q'. weather_loop self M t dt subs mb q = Inr (subs', mb, q')"
proof (induction subs arbitrary: q)
  case Nil
  show ?case by simp
next
  case (Cons sd subs)
  obtain s d where sd: "sd = (s, d)" by (cases sd)
  from Cons.prems sd have wf: "well_formed s d"
    and rest: "list_all (\<lambda>(s, d). well_formed s d) subs"
    by simp_all
  from weather_substance_succeeds [where mb = mb, OF w wf key, of M t dt] obtain d' qs where
    ws: "weather_substance self M t dt s d mb = Inr (d', mb, qs)"
    by blast
  from Cons.IH [OF rest, of "q @ qs"] obtain subs' q' where
    "weather_loop self M t dt subs mb (q @ qs) = Inr (subs', mb, q')"
    by blast
  with ws sd show ?case by simp
qed

lemma weather_elements_succeeds:
  assumes w: "waves self = Some w" and key: "mass_balance sc ''dissolution'' = Some v"
    and wf: "list_all (\<lambda>(s, d). well_formed s d) (substances sc)"
  shows "\<exists>sc' q. weather_elements self M sc dt t = Inr (sc', q)"
proof -
  from weather_loop_succeeds [where mb = "mass_balance sc", OF w key wf, of M t dt "[]"] obtain subs' q' where
    "weather_loop self M t dt (substances sc) (mass_balance sc) [] = Inr (subs', mass_balance sc, q')"
    by blast
  then show ?thesis by (simp add: weather_elements_def)
qed

subsection \<open>What a step leaves unchanged\<close>

lemma stepped_components: "stepped d d' \<Longrightarrow> mass_components d' = mass_components d"
proof (cases "mass d = []")
  case True
  assume "stepped d d'"
  with True show ?thesis by (simp add: stepped_def)
next
  case False
  assume "stepped d d'"
  with False have e: "d' = d\<lparr>partition_coeff := partition_coeff d',
      mass := map fsum (mass_components d)\<rparr>"
    by (simp add: stepped_def)
  from arg_cong [OF e, of mass_components] show ?thesis by simp
qed

lemma stepped_mass:
  "stepped d d' \<Longrightarrow> mass d = map fsum (mass_components d) \<Longrightarrow> mass d' = mass d"
proof (cases "mass d = []")
  case True
  assume "stepped d d'"
  with True show ?thesis by (simp add: stepped_def)
next
  case False
  assume "stepped d d'" and m: "mass d = map fsum (mass_components d)"
  with False have e: "d' = d\<lparr>partition_coeff := partition_coeff d',
      mass := map fsum (mass_components d)\<rparr>"
    by (simp add: stepped_def)
  from arg_cong [OF e, of mass] m show ?thesis by simp
qed

lemma stepped_new_mass:
  "stepped d d' \<Longrightarrow> mass d \<noteq> [] \<Longrightarrow> mass d' = map fsum (mass_components d)"
proof -
  assume "stepped d d'" and "mass d \<noteq> []"
  then have e: "d' = d\<lparr>partition_coeff := partition_coeff d',
      mass := map fsum (mass_components d)\<rparr>"
    by (simp add: stepped_def)
  from arg_cong [OF e, of mass] show ?thesis by simp
qed

lemma stepped_all_components:
  "list_all2 (\<lambda>(s, d) (s', d'). s' = s \<and> stepped d d') xs ys \<Longrightarrow>
   map (\<lambda>(s, d). mass_components d) ys = map (\<lambda>(s, d). mass_components d) xs"
  by (induction rule: list_all2_induct) (auto simp: stepped_components)

lemma stepped_all_mass:
  "list_all2 (\<lambda>(s, d) (s', d'). s' = s \<and> stepped d d') xs ys \<Longrightarrow>
   list_all (\<lambda>(s, d). mass d = map fsum (mass_components d)) xs \<Longrightarrow>
   map (\<lambda>(s, d). mass d) ys = map (\<lambda>(s, d). mass d) xs"
  by (induction rule: list_all2_induct) (auto simp: stepped_mass)

lemma weather_elements_frame:
  assumes "weather_elements self M sc dt t = Inr (sc', q)"
  shows "mass_balance sc' = mass_balance sc"
    and "map (\<lambda>(s, d). mass_components d) (substances sc')
         = map (\<lambda>(s, d). mass_components d) (substances sc)"
    and "list_all (\<lambda>(s, d). mass d = map fsum (mass_components d)) (substances sc) \<Longrightarrow>
         map (\<lambda>(s, d). mass d) (substances sc') = map (\<lambda>(s, d). mass d) (substances sc)"
  using assms
  by (cases rule: weather_elements_cases;
      simp add: stepped_all_components stepped_all_mass)+

lemma scenario_well_formed: "well_formed scenario_substance scenario_data"
  by (simp add: well_formed_def scenario_substance_def scenario_data_def)

subsection \<open>Invariants of a step\<close>

lemma within_tol_refl: "within_tol a b \<Longrightarrow> within_tol a a"
  by (cases a; cases b) simp_all

lemma stepped_component_sum_ok:
  assumes st: "stepped d d'" and ok: "component_sum_ok d"
  shows "component_sum_ok d'"
proof (cases "mass d = []")
  case True
  with st ok show ?thesis by (simp add: stepped_def)
next
  case False
  from ok have "list_all2 (\<lambda>row m. within_tol (fsum row) m) (mass_components d)
      (map fsum (mass_components d))"
    by (auto simp: component_sum_ok_def list_all2_conv_all_nth intro: within_tol_refl)
  with stepped_components [OF st] stepped_new_mass [OF st False] show ?thesis
    by (simp add: component_sum_ok_def)
qed

lemma stepped_all_component_sum_ok:
  "list_all2 (\<lambda>(s, d) (s', d'). s' = s \<and> stepped d d') xs ys \<Longrightarrow>
   list_all (\<lambda>(s, d). component_sum_ok d) xs \<Longrightarrow>
   list_all (\<lambda>(s, d). component_sum_ok d) ys"
  by (induction rule: list_all2_induct) (auto intro: stepped_component_sum_ok)

lemma stepped_all_row_sums:
  "list_all2 (\<lambda>(s, d) (s', d'). s' = s \<and> stepped d d') xs ys \<Longrightarrow>
   list_all (\<lambda>(s, d'). mass d' = [] \<or> mass d' = map fsum (mass_components d')) ys"
proof (induction rule: list_all2_induct)
  case Nil
  show ?case by simp
next
  case (Cons x xs y ys)
  obtain s d where x: "x = (s, d)" by (cases x)
  obtain s' d' where y: "y = (s', d')" by (cases y)
  from Cons.hyps(1) x y have st: "stepped d d'" by simp
  have "mass d' = [] \<or> mass d' = map fsum (mass_components d')"
  proof (cases "mass d = []")
    case True
    with st show ?thesis by (simp add: stepped_def)
  next
    case False
    from stepped_new_mass [OF st False] stepped_components [OF st] show ?thesis by simp
  qed
  with Cons.IH y show ?case by simp
qed

lemma frac_at_most_one: "\<not> fgt (diss_mass_frac x y) (Fin 1)"
  by (cases x; cases y) (auto simp: diss_mass_frac_def Let_def)

lemma frac_zero_mass: "diss_mass_frac x (Fin 0) = Fin 0"
  by (simp add: diss_mass_frac_def)

lemma scaled_nonneg:
  assumes "0 \<le> m"
  shows "nonneg (fmul (fsub (Fin 1) (diss_mass_frac (Fin a) (Fin b))) (Fin m))"
proof (cases "0 < b")
  case False
  with assms show ?thesis by (simp add: diss_mass_frac_def fsub_def)
next
  case True
  show ?thesis
  proof (cases "1 < a / b")
    case True
    with \<open>0 < b\<close> assms show ?thesis by (simp add: diss_mass_frac_def fsub_def Let_def)
  next
    case False
    then have "0 \<le> (1 - a / b) * m" using assms by simp
    with False \<open>0 < b\<close> show ?thesis by (simp add: diss_mass_frac_def fsub_def Let_def)
  qed
qed

lemma nonneg_fadd: "nonneg x \<Longrightarrow> nonneg y \<Longrightarrow> nonneg (fadd x y)"
  by (cases x; cases y) simp_all

lemma nonneg_fsum: "list_all nonneg xs \<Longrightarrow> nonneg (fsum xs)"
  by (induction xs) (simp_all add: nonneg_fadd)

lemma stepped_masses_nonneg:
  assumes st: "stepped d d'" and nn: "masses_nonneg d"
  shows "masses_nonneg d'"
proof (cases "mass d = []")
  case True
  with st nn show ?thesis by (simp add: stepped_def)
next
  case False
  from nn have "list_all nonneg (map fsum (mass_components d))"
    by (auto simp: masses_nonneg_def list_all_iff intro: nonneg_fsum)
  with nn stepped_components [OF st] stepped_new_mass [OF st False] show ?thesis
    by (simp add: masses_nonneg_def)
qed

lemma stepped_all_masses_nonneg:
  "list_all2 (\<lambda>(s, d) (s', d'). s' = s \<and> stepped d d') xs ys \<Longrightarrow>
   list_all (\<lambda>(s, d). masses_nonneg d) xs \<Longrightarrow>
   list_all (\<lambda>(s, d). masses_nonneg d) ys"
  by (induction rule: list_all2_induct) (auto intro: stepped_masses_nonneg)

lemma is_finite_fadd: "is_finite x \<Longrightarrow> is_finite y \<Longrightarrow> is_finite (fadd x y)"
  by (cases x; cases y) simp_all

lemma is_finite_fsum: "list_all is_finite xs \<Longrightarrow> is_finite (fsum xs)"
  by (induction xs) (simp_all add: is_finite_fadd)

lemma fsub_self: "is_finite x \<Longrightarrow> fsub x x = Fin 0"
  by (cases x) (simp_all add: fsub_def)

lemma rows_exact_finite: "rows_exact d \<Longrightarrow> is_finite (fsum (mass d))"
proof -
  assume r: "rows_exact d"
  then have "list_all is_finite (map fsum (mass_components d))"
    by (auto simp: rows_exact_def list_all_iff intro: is_finite_fsum)
  with r show ?thesis by (simp add: rows_exact_def is_finite_fsum)
qed

lemma container_mass_finite:
  "list_all (\<lambda>(s, d). rows_exact d) (substances sc) \<Longrightarrow> is_finite (container_mass sc)"
  unfolding container_mass_def
  by (rule is_finite_fsum) (auto simp: list_all_iff intro: rows_exact_finite)

lemma stepped_all_totals:
  "list_all2 (\<lambda>(s, d) (s', d'). s' = s \<and> stepped d d') xs ys \<Longrightarrow>
   list_all (\<lambda>(s, d). rows_exact d) xs \<Longrightarrow>
   map (\<lambda>(s, d). fsum (mass d)) ys = map (\<lambda>(s, d). fsum (mass d)) xs"
  by (induction rule: list_all2_induct) (auto simp: rows_exact_def stepped_mass)

lemma container_mass_kept:
  assumes "weather_elements self M sc dt t = Inr (sc', q)"
    and "list_all (\<lambda>(s, d). rows_exact d) (substances sc)"
  shows "container_mass sc' = container_mass sc"
  using assms(1)
proof (cases rule: weather_elements_cases)
  case idle
  then show ?thesis by simp
next
  case (run subs')
  from stepped_all_totals [OF run(4) assms(2)] run(3) show ?thesis
    by (simp add: container_mass_def)
qed

subsection \<open>The scenario, run\<close>

lemma scenario_step:
  "weather_elements scenario_self example_models scenario_sc (Fin 900) 0
     = Inr (scenario_after, step_queries 0)"
  by (simp add: weather_elements_def weather_substance_def dissolve_oil_def
      scenario_self_def scenario_sc_def scenario_data_def scenario_substance_def scenario_waves_def
      example_models_def scenario_after_def scenario_after_data_def
      bc2_def overall_K_ow_def element_flux_def oil_avg_density_def Let_def
      water_column_time_fraction_def step_queries_def)

lemma scenario_substance_step:
  "weather_substance scenario_self example_models 0 (Fin 900) scenario_substance scenario_data
       [''dissolution'' \<mapsto> Fin 0]
     = Inr (scenario_after_data, [''dissolution'' \<mapsto> Fin 0], step_queries 0)"
  by (simp add: weather_substance_def dissolve_oil_def
      scenario_self_def scenario_data_def scenario_substance_def scenario_waves_def
      example_models_def scenario_after_data_def
      bc2_def overall_K_ow_def element_flux_def oil_avg_density_def Let_def
      water_column_time_fraction_def step_queries_def)

subsection \<open>The stored coefficient\<close>

lemma K_ow_term:
  "fdiv (fmul (Fin m) (fmul (of_mask a) (Fin l))) w
     = fmul (fdiv (Fin m) w) (if a then Fin l else Fin 0)"
  by (cases w; cases a) (auto simp: zero_less_mult_iff mult_less_0_iff not_less)

lemma K_ow_matches_spec:
  assumes len: "length (sara_type s) = length (molecular_weight s)"
      "length (component_density s) = length (molecular_weight s)"
      "length m = length (molecular_weight s)"
    and m: "list_all is_finite m"
    and lh: "list_all (\<lambda>(mw, rho). is_finite (LeeHuibers_partition_coeff M mw rho))
               (zip (molecular_weight s) (component_density s))"
  shows "overall_K_ow m
           (map2 fmul (map of_mask (map (\<lambda>ty. ty = ''Aromatics'') (sara_type s)))
              (map2 (LeeHuibers_partition_coeff M) (molecular_weight s) (component_density s)))
           (molecular_weight s)
         = Inr (K_ow_spec M s m)"
proof -
  let ?mw = "molecular_weight s"
  let ?rho = "component_density s"
  let ?K = "map2 fmul (map of_mask (map (\<lambda>ty. ty = ''Aromatics'') (sara_type s)))
              (map2 (LeeHuibers_partition_coeff M) ?mw ?rho)"
  let ?pvals = "map2 (\<lambda>ty (mw, rho).
                     if ty = ''Aromatics'' then LeeHuibers_partition_coeff M mw rho else Fin 0)
                   (sara_type s) (zip ?mw ?rho)"
  have "map2 fdiv (map2 fmul m ?K) ?mw = map2 fmul (map2 fdiv m ?mw) ?pvals"
  proof (rule nth_equalityI)
    show "length (map2 fdiv (map2 fmul m ?K) ?mw) = length (map2 fmul (map2 fdiv m ?mw) ?pvals)"
      using len by simp
  next
    fix i assume "i < length (map2 fdiv (map2 fmul m ?K) ?mw)"
    with len have i: "i < length ?mw" "i < length m" "i < length ?rho" "i < length (sara_type s)"
      by simp_all
    from m i obtain mv where mv: "m ! i = Fin mv"
      by (cases "m ! i") (auto simp: list_all_length)
    from lh i len have "is_finite (LeeHuibers_partition_coeff M (?mw ! i) (?rho ! i))"
      by (auto simp: list_all_length)
    then obtain l where l: "LeeHuibers_partition_coeff M (?mw ! i) (?rho ! i) = Fin l"
      by (cases "LeeHuibers_partition_coeff M (?mw ! i) (?rho ! i)") auto
    from i mv l K_ow_term [of mv "sara_type s ! i = ''Aromatics''" l "?mw ! i"]
    show "map2 fdiv (map2 fmul m ?K) ?mw ! i = map2 fmul (map2 fdiv m ?mw) ?pvals ! i"
      by simp
  qed
  moreover have "length m = length ?mw" "length ?K = length ?mw"
    using len by simp_all
  ultimately show ?thesis
    by (simp add: overall_K_ow_same_length K_ow_spec_def Let_def)
qed

lemma dissolve_loop_room:
  "dissolve_loop self M t dt am K mw rho idx rows pc q = Inr (pc', q') \<Longrightarrow>
   idx \<le> length pc \<Longrightarrow> idx + length rows \<le> length pc"
proof (induction rows arbitrary: idx pc q)
  case Nil
  then show ?case by simp
next
  case (Cons row rows)
  obtain m d where row: "row = (m, d)" by (cases row)
  from Cons.prems obtain Kv qs where
    "idx < length pc"
    and "dissolve_loop self M t dt am K mw rho (Suc idx) rows (pc[idx := Kv]) (q @ qs)
           = Inr (pc', q')"
    unfolding row by (auto simp: bindE_Inr_iff split: if_splits)
  from Cons.IH [OF this(2)] this(1) show ?case by simp
qed

lemma dissolve_oil_loop:
  assumes "dissolve_oil self M d s t dt = Inr (d', diss, q)"
  obtains K where
    "bc2 fmul (map of_mask (map (\<lambda>ty. ty = ''Aromatics'') (sara_type s)))
       (map2 (LeeHuibers_partition_coeff M) (molecular_weight s) (component_density s)) = Inr K"
    and "length (molecular_weight s) = length (component_density s)"
    and "dissolve_loop self M t dt (map (\<lambda>ty. ty = ''Aromatics'') (sara_type s)) K
           (molecular_weight s) (component_density s) 0
           (zip (mass_components d) (droplet_avg_size d)) (partition_coeff d) []
         = Inr (partition_coeff d', q)"
  using assms
  by (auto simp: dissolve_oil_def Let_def bindE_Inr_iff split: if_splits)

lemma dissolve_oil_stores:
  assumes ret: "dissolve_oil self M d s t dt = Inr (d', diss, q)"
    and types: "length (sara_type s) = length (molecular_weight s)"
    and rows: "list_all (\<lambda>row. length row = length (molecular_weight s) \<and> list_all is_finite row)
                 (mass_components d)"
    and drops: "length (droplet_avg_size d) = length (mass_components d)"
    and lh: "list_all (\<lambda>(mw, rho). is_finite (LeeHuibers_partition_coeff M mw rho))
               (zip (molecular_weight s) (component_density s))"
  shows "length (mass_components d) \<le> length (partition_coeff d')"
    and "i < length (mass_components d) \<Longrightarrow>
         partition_coeff d' ! i = K_ow_spec M s (mass_components d ! i)"
proof -
  let ?am = "map (\<lambda>ty. ty = ''Aromatics'') (sara_type s)"
  let ?mw = "molecular_weight s"
  let ?rho = "component_density s"
  let ?rows = "zip (mass_components d) (droplet_avg_size d)"
  from ret obtain K where
    K: "bc2 fmul (map of_mask ?am) (map2 (LeeHuibers_partition_coeff M) ?mw ?rho) = Inr K"
    and rho: "length ?mw = length ?rho"
    and loop: "dissolve_loop self M t dt ?am K ?mw ?rho 0 ?rows (partition_coeff d) []
         = Inr (partition_coeff d', q)"
    by (rule dissolve_oil_loop)
  from K types rho
  have K': "K = map2 fmul (map of_mask ?am) (map2 (LeeHuibers_partition_coeff M) ?mw ?rho)"
    by (simp add: bc2_same_length)
  have n: "length ?rows = length (mass_components d)" using drops by simp
  from dissolve_loop_room [OF loop] dissolve_loop_length [OF loop] n
  show "length (mass_components d) \<le> length (partition_coeff d')" by simp
  assume i: "i < length (mass_components d)"
  with n have "i < length ?rows" by simp
  from dissolve_loop_stores [OF loop this] i drops
  have st: "overall_K_ow (mass_components d ! i) K ?mw = Inr (partition_coeff d' ! i)"
    by simp
  from rows i have row: "length (mass_components d ! i) = length ?mw"
    "list_all is_finite (mass_components d ! i)"
    by (simp_all add: list_all_length)
  from K_ow_matches_spec [OF types rho [symmetric] row lh] st K'
  show "partition_coeff d' ! i = K_ow_spec M s (mass_components d ! i)" by simp
qed

lemma scenario_dissolve:
  "dissolve_oil scenario_self example_models scenario_data scenario_substance 0 (Fin 900)
     = Inr (scenario_after_data, [Fin 0], step_queries 0)"
  by (simp add: dissolve_oil_def
      scenario_self_def scenario_data_def scenario_substance_def scenario_waves_def
      example_models_def scenario_after_data_def
      bc2_def overall_K_ow_def element_flux_def oil_avg_density_def Let_def
      water_column_time_fraction_def step_queries_def)

subsection \<open>Finite values\<close>

lemma is_finite_conv: "is_finite x \<longleftrightarrow> (\<exists>r. x = Fin r)"
  by (cases x) simp_all

lemma fadd_Fin_iff: "fadd x y = Fin r \<longleftrightarrow> (\<exists>a b. x = Fin a \<and> y = Fin b \<and> r = a + b)"
  by (cases x; cases y) auto

lemma fsum_Fin_all_finite: "fsum xs = Fin r \<Longrightarrow> list_all is_finite xs"
  by (induction xs arbitrary: r) (auto simp: fadd_Fin_iff)

lemma is_finite_fmul: "is_finite x \<Longrightarrow> is_finite y \<Longrightarrow> is_finite (fmul x y)"
  by (cases x; cases y) simp_all

lemma K_ow_spec_finite:
  assumes len: "length (sara_type s) = length (molecular_weight s)"
      "length (component_density s) = length (molecular_weight s)"
      "length m = length (molecular_weight s)"
    and lh: "list_all (\<lambda>(mw, rho). is_finite (LeeHuibers_partition_coeff M mw rho))
               (zip (molecular_weight s) (component_density s))"
    and sum: "fsum (map2 fdiv m (molecular_weight s)) = Fin r" and r: "r \<noteq> 0"
  shows "is_finite (K_ow_spec M s m)"
proof -
  let ?weight = "map2 fdiv m (molecular_weight s)"
  let ?pvals = "map2 (\<lambda>ty (mw, rho).
                     if ty = ''Aromatics'' then LeeHuibers_partition_coeff M mw rho else Fin 0)
                   (sara_type s) (zip (molecular_weight s) (component_density s))"
  from fsum_Fin_all_finite [OF sum] have w: "list_all is_finite ?weight" .
  have v: "list_all is_finite ?pvals"
    using lh len by (auto simp: list_all_length)
  have "list_all is_finite (map2 fmul ?weight ?pvals)"
    using w v len by (auto simp: list_all_length intro!: is_finite_fmul)
  from is_finite_fsum [OF this] obtain n where "fsum (map2 fmul ?weight ?pvals) = Fin n"
    by (auto simp: is_finite_conv)
  with sum r show ?thesis by (simp add: K_ow_spec_def Let_def)
qed

lemma stepped_finite:
  assumes st: "stepped d d'"
    and fin: "list_all is_finite (mass d) \<and> list_all (list_all is_finite) (mass_components d)"
  shows "list_all is_finite (mass d') \<and> list_all (list_all is_finite) (mass_components d')"
proof (cases "mass d = []")
  case True
  with st fin show ?thesis by (simp add: stepped_def)
next
  case False
  from fin have "list_all is_finite (map fsum (mass_components d))"
    by (auto simp: list_all_iff intro: is_finite_fsum)
  with fin stepped_components [OF st] stepped_new_mass [OF st False] show ?thesis by simp
qed

lemma stepped_all_finite:
  "list_all2 (\<lambda>(s, d) (s', d'). s' = s \<and> stepped d d') xs ys \<Longrightarrow>
   list_all (\<lambda>(s, d). list_all is_finite (mass d) \<and>
      list_all (list_all is_finite) (mass_components d)) xs \<Longrightarrow>
   list_all (\<lambda>(s, d). list_all is_finite (mass d) \<and>
      list_all (list_all is_finite) (mass_components d)) ys"
  by (induction rule: list_all2_induct) (auto dest: stepped_finite)

lemma weather_elements_finite:
  assumes "weather_elements self M sc dt t = Inr (sc', q)"
    and "list_all (\<lambda>(s, d). list_all is_finite (mass d) \<and>
      list_all (list_all is_finite) (mass_components d)) (substances sc)"
  shows "list_all (\<lambda>(s, d). list_all is_finite (mass d) \<and>
      list_all (list_all is_finite) (mass_components d)) (substances sc')"
  using assms(1)
proof (cases rule: weather_elements_cases)
  case idle
  with assms(2) show ?thesis by simp
next
  case (run subs')
  from stepped_all_finite [OF run(4) assms(2)] run(3) show ?thesis by simp
qed

lemma saturates_only_dissolve:
  "dissolve_oil scenario_self example_models saturates_only_data scenario_substance 0 (Fin 900)
     = Inr (saturates_only_data\<lparr>partition_coeff := [Fin 0]\<rparr>, [Fin 0], step_queries 0)"
  by (simp add: dissolve_oil_def saturates_only_data_def
      scenario_self_def scenario_data_def scenario_substance_def scenario_waves_def
      example_models_def
      bc2_def overall_K_ow_def element_flux_def oil_avg_density_def Let_def
      water_column_time_fraction_def step_queries_def)

lemma saturates_only_well_formed: "well_formed scenario_substance saturates_only_data"
  by (simp add: well_formed_def scenario_substance_def scenario_data_def saturates_only_data_def)

section \<open>The claims\<close>

subsection \<open>C1: the scenario\<close>

text \<open>
  C1 expects of the scenario a dissipated mass that is finite, positive and below the
  total mass 100, and component masses that all shrink by the same fraction. Whatever
  the four physical models are, the step on the scenario leaves the ledger entry at 0 and
  the masses at 50, 50 and 100: only the coefficient of the element is written, and the
  four queries are made. The mass that the loop computes for the element is printed and
  dropped; \<^verbatim>\<open>dissolve_oil\<close> returns zeros.
\<close>

theorem scenario_step_dissolves_nothing:
  "\<exists>K. weather_elements scenario_self M scenario_sc (Fin 900) 0
          = Inr (scenario_sc\<lparr>substances :=
                    [(scenario_substance, scenario_data\<lparr>partition_coeff := [K]\<rparr>)]\<rparr>,
                 step_queries 0)"
  by (simp add: weather_elements_def weather_substance_def dissolve_oil_def
      scenario_self_def scenario_sc_def scenario_data_def scenario_substance_def scenario_waves_def
      bc2_def overall_K_ow_def element_flux_def oil_avg_density_def Let_def
      water_column_time_fraction_def step_queries_def)

subsection \<open>C2: mass conservation\<close>

text \<open>
  C2: in a step, the mass that leaves the elements of a substance is the amount added to
  the ledger entry, so that mass plus ledger stays equal to the released mass within the
  tolerance when it was before. For one substance (the body of the loop) and for the
  whole container: given that the total masses are the row sums of finite component
  masses, as every step leaves them, and that the ledger entry is finite, the difference
  of the ledger entry after and before the step equals the difference of the mass before
  and after it, and mass plus ledger keeps matching any released amount it matched.
\<close>

theorem ledger_matches_mass_removed:
  "(weather_substance self M t dt s d mb = Inr (d', mb', q) \<and> rows_exact d \<and>
    mb ''dissolution'' = Some L \<and> is_finite L \<longrightarrow>
      (\<exists>L'. mb' ''dissolution'' = Some L' \<and>
            fsub L' L = fsub (fsum (mass d)) (fsum (mass d')) \<and>
            (\<forall>A R. within_tol (fadd (fsum (mass d)) A) R \<longrightarrow>
                   within_tol (fadd (fsum (mass d')) (fadd A (fsub L' L))) R))) \<and>
   (weather_elements self M sc dt t = Inr (sc', q') \<and>
    list_all (\<lambda>(s, d). rows_exact d) (substances sc) \<and>
    mass_balance sc ''dissolution'' = Some L \<and> is_finite L \<longrightarrow>
      (\<exists>L'. mass_balance sc' ''dissolution'' = Some L' \<and>
            fsub L' L = fsub (container_mass sc) (container_mass sc') \<and>
            (\<forall>R. within_tol (fadd (container_mass sc) L) R \<longrightarrow>
                 within_tol (fadd (container_mass sc') L') R)))"
proof (intro conjI impI)
  assume a: "weather_substance self M t dt s d mb = Inr (d', mb', q) \<and> rows_exact d \<and>
    mb ''dissolution'' = Some L \<and> is_finite L"
  then have ws: "weather_substance self M t dt s d mb = Inr (d', mb', q)"
    and ex: "rows_exact d" and L: "mb ''dissolution'' = Some L" "is_finite L"
    by simp_all
  from weather_substance_stepped [OF ws] have mb: "mb' = mb" and st: "stepped d d'"
    by simp_all
  from ex have "mass d = map fsum (mass_components d)" by (simp add: rows_exact_def)
  from stepped_mass [OF st this] have m: "mass d' = mass d" .
  have "fsub L L = Fin 0" "fsub (fsum (mass d)) (fsum (mass d)) = Fin 0"
    using L(2) rows_exact_finite [OF ex] by (simp_all add: fsub_self)
  with mb m L(1)
  show "\<exists>L'. mb' ''dissolution'' = Some L' \<and>
            fsub L' L = fsub (fsum (mass d)) (fsum (mass d')) \<and>
            (\<forall>A R. within_tol (fadd (fsum (mass d)) A) R \<longrightarrow>
                   within_tol (fadd (fsum (mass d')) (fadd A (fsub L' L))) R)"
    by (intro exI [of _ L]) simp
next
  assume a: "weather_elements self M sc dt t = Inr (sc', q') \<and>
    list_all (\<lambda>(s, d). rows_exact d) (substances sc) \<and>
    mass_balance sc ''dissolution'' = Some L \<and> is_finite L"
  then have we: "weather_elements self M sc dt t = Inr (sc', q')"
    and ex: "list_all (\<lambda>(s, d). rows_exact d) (substances sc)"
    and L: "mass_balance sc ''dissolution'' = Some L" "is_finite L"
    by simp_all
  from weather_elements_frame(1) [OF we] have mb: "mass_balance sc' = mass_balance sc" .
  from container_mass_kept [OF we ex] have m: "container_mass sc' = container_mass sc" .
  have "fsub L L = Fin 0" "fsub (container_mass sc) (container_mass sc) = Fin 0"
    using L(2) container_mass_finite [OF ex] by (simp_all add: fsub_self)
  with mb m L(1)
  show "\<exists>L'. mass_balance sc' ''dissolution'' = Some L' \<and>
            fsub L' L = fsub (container_mass sc) (container_mass sc') \<and>
            (\<forall>R. within_tol (fadd (container_mass sc) L) R \<longrightarrow>
                 within_tol (fadd (container_mass sc') L') R)"
    by (intro exI [of _ L]) simp
qed

theorem ledger_matches_mass_removed_witness:
  "weather_substance scenario_self example_models 0 (Fin 900) scenario_substance scenario_data
       [''dissolution'' \<mapsto> Fin 0]
     = Inr (scenario_after_data, [''dissolution'' \<mapsto> Fin 0], step_queries 0) \<and>
   rows_exact scenario_data \<and>
   within_tol (fadd (fsum (mass scenario_data)) (Fin 0)) (Fin 100) \<and>
   (\<exists>L'. [''dissolution'' \<mapsto> Fin 0] ''dissolution'' = Some L' \<and>
         fsub L' (Fin 0) = fsub (fsum (mass scenario_data)) (fsum (mass scenario_after_data)) \<and>
         within_tol (fadd (fsum (mass scenario_after_data)) (fadd (Fin 0) (fsub L' (Fin 0))))
           (Fin 100)) \<and>
   weather_elements scenario_self example_models scenario_sc (Fin 900) 0
     = Inr (scenario_after, step_queries 0) \<and>
   list_all (\<lambda>(s, d). rows_exact d) (substances scenario_sc) \<and>
   within_tol (fadd (container_mass scenario_sc) (Fin 0)) (Fin 100) \<and>
   (\<exists>L'. mass_balance scenario_after ''dissolution'' = Some L' \<and>
         fsub L' (Fin 0) = fsub (container_mass scenario_sc) (container_mass scenario_after) \<and>
         within_tol (fadd (container_mass scenario_after) L') (Fin 100))"
proof -
  have ex: "rows_exact scenario_data"
    by (simp add: rows_exact_def scenario_data_def)
  then have exs: "list_all (\<lambda>(s, d). rows_exact d) (substances scenario_sc)"
    by (simp add: scenario_sc_def)
  have key: "[''dissolution'' \<mapsto> Fin 0] ''dissolution'' = Some (Fin 0)"
    "mass_balance scenario_sc ''dissolution'' = Some (Fin 0)" "is_finite (Fin 0)"
    by (simp_all add: scenario_sc_def)
  have tol: "within_tol (fadd (fsum (mass scenario_data)) (Fin 0)) (Fin 100)"
    "within_tol (fadd (container_mass scenario_sc) (Fin 0)) (Fin 100)"
    by (simp_all add: scenario_data_def scenario_sc_def container_mass_def)
  note inst = ledger_matches_mass_removed [where self = scenario_self and M = example_models
      and t = 0 and dt = "Fin 900" and s = scenario_substance and d = scenario_data
      and mb = "[''dissolution'' \<mapsto> Fin 0]" and d' = scenario_after_data
      and mb' = "[''dissolution'' \<mapsto> Fin 0]" and q = "step_queries 0" and L = "Fin 0"
      and sc = scenario_sc and sc' = scenario_after and q' = "step_queries 0"]
  from inst [THEN conjunct1] scenario_substance_step ex key
  obtain L1 where L1: "[''dissolution'' \<mapsto> Fin 0] ''dissolution'' = Some L1"
    "fsub L1 (Fin 0) = fsub (fsum (mass scenario_data)) (fsum (mass scenario_after_data))"
    "\<forall>A R. within_tol (fadd (fsum (mass scenario_data)) A) R \<longrightarrow>
       within_tol (fadd (fsum (mass scenario_after_data)) (fadd A (fsub L1 (Fin 0)))) R"
    by blast
  from L1(3) tol(1)
  have t1: "within_tol (fadd (fsum (mass scenario_after_data)) (fadd (Fin 0) (fsub L1 (Fin 0))))
      (Fin 100)"
    by blast
  from inst [THEN conjunct2] scenario_step exs key
  obtain L2 where L2: "mass_balance scenario_after ''dissolution'' = Some L2"
    "fsub L2 (Fin 0) = fsub (container_mass scenario_sc) (container_mass scenario_after)"
    "\<forall>R. within_tol (fadd (container_mass scenario_sc) (Fin 0)) R \<longrightarrow>
       within_tol (fadd (container_mass scenario_after) L2) R"
    by blast
  from L2(3) tol(2) have t2: "within_tol (fadd (container_mass scenario_after) L2) (Fin 100)"
    by blast
  from scenario_substance_step ex tol L1(1,2) t1 scenario_step exs L2(1,2) t2
  show ?thesis by blast
qed

subsection \<open>C3: the release-count assertion\<close>

text \<open>
  C3 says that \<^verbatim>\<open>initialize_data\<close> fails when the claimed number of newly released
  elements differs from the number of rows whose coefficient is the sentinel 0, and
  succeeds only when the two are equal. The code adds \<^verbatim>\<open>len(mask)\<close>, the number of
  all rows, where the number of rows selected by the mask was meant. On a container of
  five rows, three of them with the sentinel, a claimed count of 5 passes and a claimed
  count of 3 fails.
\<close>

theorem initialize_data_counts_all_rows:
  "initialize_data scenario_self five_rows_sc 5 = Inr five_rows_sc \<and>
   initialize_data scenario_self five_rows_sc 3 = Inl AssertionError"
  by (simp add: initialize_data_def initialize_k_ow_def initialize_substance_def
      scenario_self_def five_rows_sc_def five_rows_data_def set_masked_def Let_def)

subsection \<open>C4: degenerate elements\<close>

text \<open>
  C4 as stated fails: the code has no exclusion of degenerate elements, and an element
  with no non-aromatic volume because it has lost all of its mass gets NaN written into
  its \<^verbatim>\<open>partition_coeff\<close> (0 divided by 0).
\<close>

theorem depleted_element_gets_nan:
  "weather_elements scenario_self example_models depleted_sc (Fin 900) 0
     = Inr (depleted_sc\<lparr>substances :=
              [(scenario_substance, depleted_data\<lparr>partition_coeff := [NaN]\<rparr>)]\<rparr>,
            step_queries 0)"
  by (simp add: weather_elements_def weather_substance_def dissolve_oil_def
      scenario_self_def scenario_sc_def scenario_data_def scenario_substance_def scenario_waves_def
      example_models_def depleted_sc_def depleted_data_def
      bc2_def overall_K_ow_def element_flux_def oil_avg_density_def Let_def
      water_column_time_fraction_def step_queries_def)

text \<open>
  C4 amended: for every element, degenerate or not, \<^verbatim>\<open>dissolve_oil\<close> reports a flux
  of zero and leaves the component masses as they are; a step that completes leaves the
  ledger and the component masses as they are, and finite masses finite; a step on
  well-formed arrays completes, whatever the coefficients, volumes and droplet sizes
  are; and the coefficient stored for an element is finite when the partition values of
  the components and the masses of the element are finite and the sum of its masses over
  the molecular weights is finite and not zero.
\<close>

theorem degenerate_elements_get_no_flux:
  "(dissolve_oil self M d s t dt = Inr (d', diss, q) \<longrightarrow>
      list_all (\<lambda>x. x = Fin 0) diss \<and> mass_components d' = mass_components d) \<and>
   (weather_elements self M sc dt t = Inr (sc', q') \<longrightarrow>
      mass_balance sc' = mass_balance sc \<and>
      map (\<lambda>(s, d). mass_components d) (substances sc')
        = map (\<lambda>(s, d). mass_components d) (substances sc) \<and>
      (list_all (\<lambda>(s, d). list_all is_finite (mass d) \<and>
           list_all (list_all is_finite) (mass_components d)) (substances sc) \<longrightarrow>
       list_all (\<lambda>(s, d). list_all is_finite (mass d) \<and>
           list_all (list_all is_finite) (mass_components d)) (substances sc'))) \<and>
   (waves self \<noteq> None \<and> mass_balance sc ''dissolution'' \<noteq> None \<and>
    list_all (\<lambda>(s, d). well_formed s d) (substances sc) \<longrightarrow>
      (\<exists>sc' q'. weather_elements self M sc dt t = Inr (sc', q'))) \<and>
   (dissolve_oil self M d s t dt = Inr (d', diss, q) \<and>
    length (sara_type s) = length (molecular_weight s) \<and>
    list_all (\<lambda>row. length row = length (molecular_weight s) \<and> list_all is_finite row)
      (mass_components d) \<and>
    length (droplet_avg_size d) = length (mass_components d) \<and>
    list_all (\<lambda>(mw, rho). is_finite (LeeHuibers_partition_coeff M mw rho))
      (zip (molecular_weight s) (component_density s)) \<and>
    i < length (mass_components d) \<and>
    fsum (map2 fdiv (mass_components d ! i) (molecular_weight s)) = Fin r \<and> r \<noteq> 0 \<longrightarrow>
      is_finite (partition_coeff d' ! i))"
proof (intro conjI impI)
  assume a: "dissolve_oil self M d s t dt = Inr (d', diss, q)"
  from dissolve_oil_result [OF a]
  show "list_all (\<lambda>x. x = Fin 0) diss" and "mass_components d' = mass_components d"
    by (auto simp: list_all_iff)
next
  assume a: "weather_elements self M sc dt t = Inr (sc', q')"
  from weather_elements_frame [OF a]
  show "mass_balance sc' = mass_balance sc"
    and "map (\<lambda>(s, d). mass_components d) (substances sc')
        = map (\<lambda>(s, d). mass_components d) (substances sc)"
    by simp_all
  assume "list_all (\<lambda>(s, d). list_all is_finite (mass d) \<and>
           list_all (list_all is_finite) (mass_components d)) (substances sc)"
  with a show "list_all (\<lambda>(s, d). list_all is_finite (mass d) \<and>
           list_all (list_all is_finite) (mass_components d)) (substances sc')"
    by (rule weather_elements_finite)
next
  assume "waves self \<noteq> None \<and> mass_balance sc ''dissolution'' \<noteq> None \<and>
    list_all (\<lambda>(s, d). well_formed s d) (substances sc)"
  then obtain w v where "waves self = Some w" "mass_balance sc ''dissolution'' = Some v"
    "list_all (\<lambda>(s, d). well_formed s d) (substances sc)"
    by auto
  from weather_elements_succeeds [where sc = sc, OF this, of M dt t]
  show "\<exists>sc' q'. weather_elements self M sc dt t = Inr (sc', q')" .
next
  assume a: "dissolve_oil self M d s t dt = Inr (d', diss, q) \<and>
    length (sara_type s) = length (molecular_weight s) \<and>
    list_all (\<lambda>row. length row = length (molecular_weight s) \<and> list_all is_finite row)
      (mass_components d) \<and>
    length (droplet_avg_size d) = length (mass_components d) \<and>
    list_all (\<lambda>(mw, rho). is_finite (LeeHuibers_partition_coeff M mw rho))
      (zip (molecular_weight s) (component_density s)) \<and>
    i < length (mass_components d) \<and>
    fsum (map2 fdiv (mass_components d ! i) (molecular_weight s)) = Fin r \<and> r \<noteq> 0"
  then have ret: "dissolve_oil self M d s t dt = Inr (d', diss, q)"
    and types: "length (sara_type s) = length (molecular_weight s)"
    and rows: "list_all (\<lambda>row. length row = length (molecular_weight s) \<and>
        list_all is_finite row) (mass_components d)"
    and drops: "length (droplet_avg_size d) = length (mass_components d)"
    and lh: "list_all (\<lambda>(mw, rho). is_finite (LeeHuibers_partition_coeff M mw rho))
      (zip (molecular_weight s) (component_density s))"
    and i: "i < length (mass_components d)"
    and sum: "fsum (map2 fdiv (mass_components d ! i) (molecular_weight s)) = Fin r"
    and r: "r \<noteq> 0"
    by simp_all
  from ret obtain K where rho: "length (molecular_weight s) = length (component_density s)"
    by (rule dissolve_oil_loop)
  from rows i have row: "length (mass_components d ! i) = length (molecular_weight s)"
    by (simp add: list_all_length)
  from dissolve_oil_stores(2) [OF ret types rows drops lh i]
    K_ow_spec_finite [OF types rho [symmetric] row lh sum r]
  show "is_finite (partition_coeff d' ! i)" by simp
qed

theorem degenerate_elements_get_no_flux_witness:
  "dissolve_oil scenario_self example_models saturates_only_data scenario_substance 0 (Fin 900)
     = Inr (saturates_only_data\<lparr>partition_coeff := [Fin 0]\<rparr>, [Fin 0], step_queries 0) \<and>
   list_all (\<lambda>x. x = Fin 0) [Fin 0] \<and>
   is_finite (partition_coeff (saturates_only_data\<lparr>partition_coeff := [Fin 0]\<rparr>) ! 0) \<and>
   (\<exists>sc' q'. weather_elements scenario_self example_models saturates_only_sc (Fin 900) 0
                = Inr (sc', q') \<and>
              mass_balance sc' = mass_balance saturates_only_sc \<and>
              map (\<lambda>(s, d). mass_components d) (substances sc') = [[[Fin 0, Fin 50]]] \<and>
              list_all (\<lambda>(s, d). list_all is_finite (mass d) \<and>
                 list_all (list_all is_finite) (mass_components d)) (substances sc'))"
proof -
  note inst = degenerate_elements_get_no_flux [where self = scenario_self
      and M = example_models and d = saturates_only_data and s = scenario_substance and t = 0
      and dt = "Fin 900" and d' = "saturates_only_data\<lparr>partition_coeff := [Fin 0]\<rparr>"
      and diss = "[Fin 0]" and q = "step_queries 0" and sc = saturates_only_sc
      and i = 0 and r = "1 / 6"]
  have h1: "waves scenario_self \<noteq> None" by (simp add: scenario_self_def)
  have h2: "mass_balance saturates_only_sc ''dissolution'' \<noteq> None"
    by (simp add: saturates_only_sc_def scenario_sc_def)
  have h3: "list_all (\<lambda>(s, d). well_formed s d) (substances saturates_only_sc)"
    using saturates_only_well_formed by (simp add: saturates_only_sc_def)
  have h4: "list_all (\<lambda>(s, d). list_all is_finite (mass d) \<and>
      list_all (list_all is_finite) (mass_components d)) (substances saturates_only_sc)"
    by (simp add: saturates_only_sc_def saturates_only_data_def)
  have h5: "length (sara_type scenario_substance) = length (molecular_weight scenario_substance)"
    "list_all (\<lambda>row. length row = length (molecular_weight scenario_substance) \<and>
       list_all is_finite row) (mass_components saturates_only_data)"
    "length (droplet_avg_size saturates_only_data) = length (mass_components saturates_only_data)"
    "list_all (\<lambda>(mw, rho). is_finite (LeeHuibers_partition_coeff example_models mw rho))
       (zip (molecular_weight scenario_substance) (component_density scenario_substance))"
    "0 < length (mass_components saturates_only_data)"
    "fsum (map2 fdiv (mass_components saturates_only_data ! 0)
       (molecular_weight scenario_substance)) = Fin (1 / 6)"
    "(1 / 6 :: real) \<noteq> 0"
    by (simp_all add: scenario_substance_def saturates_only_data_def example_models_def)
  have m: "map (\<lambda>(s, d). mass_components d) (substances saturates_only_sc) = [[[Fin 0, Fin 50]]]"
    by (simp add: saturates_only_sc_def saturates_only_data_def)
  from inst saturates_only_dissolve have A: "list_all (\<lambda>x. x = Fin 0) [Fin 0]"
    by blast
  from inst saturates_only_dissolve h5
  have B: "is_finite (partition_coeff (saturates_only_data\<lparr>partition_coeff := [Fin 0]\<rparr>) ! 0)"
    by blast
  from inst h1 h2 h3 obtain sc' q' where
    w: "weather_elements scenario_self example_models saturates_only_sc (Fin 900) 0
          = Inr (sc', q')"
    by blast
  from inst [where sc' = sc' and q' = q'] w h4
  have C: "mass_balance sc' = mass_balance saturates_only_sc"
    "map (\<lambda>(s, d). mass_components d) (substances sc')
       = map (\<lambda>(s, d). mass_components d) (substances saturates_only_sc)"
    "list_all (\<lambda>(s, d). list_all is_finite (mass d) \<and>
       list_all (list_all is_finite) (mass_components d)) (substances sc')"
    by blast+
  from w C m have D: "\<exists>sc' q'. weather_elements scenario_self example_models saturates_only_sc
        (Fin 900) 0 = Inr (sc', q') \<and>
      mass_balance sc' = mass_balance saturates_only_sc \<and>
      map (\<lambda>(s, d). mass_components d) (substances sc') = [[[Fin 0, Fin 50]]] \<and>
      list_all (\<lambda>(s, d). list_all is_finite (mass d) \<and>
         list_all (list_all is_finite) (mass_components d)) (substances sc')"
    by (intro exI [of _ sc'] exI [of _ q']) simp
  from saturates_only_dissolve A B D show ?thesis by blast
qed

subsection \<open>C5: the component-sum invariant\<close>

text \<open>
  C5: after a step of \<^verbatim>\<open>weather_elements\<close>, every row of component masses sums to
  the row's total mass within the tolerance, given that it did before the step; and when
  the step runs (the process is active and something has been released), the total masses
  of every substance that has elements are exactly the row sums.
\<close>

theorem component_sum_preserved:
  assumes "weather_elements self M sc dt t = Inr (sc', q)"
  shows "(component_sum_inv sc \<longrightarrow> component_sum_inv sc') \<and>
         (active self \<and> num_released sc \<noteq> 0 \<longrightarrow>
            list_all (\<lambda>(s, d'). mass d' = [] \<or> mass d' = map fsum (mass_components d'))
              (substances sc'))"
  using assms
proof (cases rule: weather_elements_cases)
  case idle
  then show ?thesis by auto
next
  case (run subs')
  from stepped_all_component_sum_ok [OF run(4)] stepped_all_row_sums [OF run(4)] run(3)
  show ?thesis by (simp add: component_sum_inv_def)
qed

theorem component_sum_preserved_witness:
  "weather_elements scenario_self example_models scenario_sc (Fin 900) 0
     = Inr (scenario_after, step_queries 0) \<and>
   component_sum_inv scenario_sc \<and> component_sum_inv scenario_after \<and>
   active scenario_self \<and> num_released scenario_sc \<noteq> 0 \<and>
   list_all (\<lambda>(s, d'). mass d' = [] \<or> mass d' = map fsum (mass_components d'))
     (substances scenario_after)"
proof -
  have inv: "component_sum_inv scenario_sc"
    by (simp add: component_sum_inv_def component_sum_ok_def scenario_sc_def scenario_data_def)
  have act: "active scenario_self" "num_released scenario_sc \<noteq> 0"
    by (simp_all add: scenario_self_def scenario_sc_def)
  from component_sum_preserved [OF scenario_step] inv act scenario_step
  show ?thesis by blast
qed

subsection \<open>C6: a process that is off or not active\<close>

text \<open>
  C6: when the process is not active, \<^verbatim>\<open>weather_elements\<close> returns the container as
  it is (arrays and ledger) and makes no query; when the process is off,
  \<^verbatim>\<open>initialize_data\<close> returns the container as it is; and whenever
  \<^verbatim>\<open>initialize_data\<close> returns at all, on or off, the container is unchanged: the
  rows it writes 0 into are the rows that hold 0.
\<close>

theorem inactive_process_no_effect:
  "(\<not> active self \<longrightarrow> weather_elements self M sc dt t = Inr (sc, [])) \<and>
   (\<not> on self \<longrightarrow> initialize_data self sc n = Inr sc) \<and>
   (initialize_data self sc n = Inr sc' \<longrightarrow> sc' = sc)"
proof (intro conjI impI)
  assume "\<not> active self"
  then show "weather_elements self M sc dt t = Inr (sc, [])"
    by (simp add: weather_elements_def)
next
  assume "\<not> on self"
  then show "initialize_data self sc n = Inr sc"
    by (simp add: initialize_data_def)
next
  assume "initialize_data self sc n = Inr sc'"
  then show "sc' = sc"
    by (auto simp: initialize_data_def initialize_k_ow_def bindE_Inr_iff
        split: if_splits dest!: initialize_loop_same)
qed

theorem inactive_process_no_effect_witness:
  "\<not> active off_self \<and>
   weather_elements off_self example_models scenario_sc (Fin 900) 0 = Inr (scenario_sc, []) \<and>
   \<not> on off_self \<and>
   initialize_data off_self scenario_sc 5 = Inr scenario_sc \<and>
   \<not> active idle_self \<and>
   weather_elements idle_self example_models five_rows_sc (Fin 900) 0 = Inr (five_rows_sc, []) \<and>
   initialize_data idle_self five_rows_sc 5 = Inr five_rows_sc"
proof -
  have off: "\<not> active off_self" "\<not> on off_self"
    by (simp_all add: off_self_def scenario_self_def)
  have idle: "\<not> active idle_self"
    by (simp add: idle_self_def scenario_self_def)
  have init: "initialize_data idle_self five_rows_sc 5 = Inr five_rows_sc"
    by (simp add: initialize_data_def initialize_k_ow_def initialize_substance_def
        idle_self_def scenario_self_def five_rows_sc_def five_rows_data_def set_masked_def
        Let_def)
  from off idle init
    inactive_process_no_effect [of off_self example_models scenario_sc "Fin 900" 0 5 scenario_sc]
    inactive_process_no_effect [of idle_self example_models five_rows_sc "Fin 900" 0 5
      five_rows_sc]
  show ?thesis by simp
qed

subsection \<open>C7: substances with no element\<close>

text \<open>
  C7: when nothing has been released, \<^verbatim>\<open>weather_elements\<close> returns the container as
  it is and makes no query; the loop body, on a substance with no element, returns its
  arrays and the ledger as they are and makes no query; and so the ledger and the queries
  of a run of the loop are those of the run without the substances that have no element.
\<close>

theorem zero_element_skip:
  "(num_released sc = 0 \<longrightarrow> weather_elements self M sc dt t = Inr (sc, [])) \<and>
   (mass d = [] \<longrightarrow> weather_substance self M t dt s d mb = Inr (d, mb, [])) \<and>
   ledger_and_queries (weather_loop self M t dt subs mb q)
     = ledger_and_queries
         (weather_loop self M t dt (filter (\<lambda>(s, d). mass d \<noteq> []) subs) mb q)"
  using weather_loop_skip_empty [of self M t dt subs mb q]
  by (simp add: weather_elements_def weather_substance_def)

theorem zero_element_skip_witness:
  "num_released (scenario_sc\<lparr>num_released := 0\<rparr>) = 0 \<and>
   weather_elements scenario_self example_models (scenario_sc\<lparr>num_released := 0\<rparr>) (Fin 900) 0
     = Inr (scenario_sc\<lparr>num_released := 0\<rparr>, []) \<and>
   mass empty_data = [] \<and>
   weather_substance scenario_self example_models 0 (Fin 900) scenario_substance empty_data
       [''dissolution'' \<mapsto> Fin 0]
     = Inr (empty_data, [''dissolution'' \<mapsto> Fin 0], []) \<and>
   ledger_and_queries
     (weather_loop scenario_self example_models 0 (Fin 900)
        [(scenario_substance, empty_data), (scenario_substance, scenario_data)]
        [''dissolution'' \<mapsto> Fin 0] [])
     = ledger_and_queries
         (weather_loop scenario_self example_models 0 (Fin 900)
            [(scenario_substance, scenario_data)] [''dissolution'' \<mapsto> Fin 0] [])"
proof -
  have a: "num_released (scenario_sc\<lparr>num_released := 0\<rparr>) = 0" by simp
  have b: "mass empty_data = []" by (simp add: empty_data_def)
  have c: "filter (\<lambda>(s, d). mass d \<noteq> [])
             [(scenario_substance, empty_data), (scenario_substance, scenario_data)]
           = [(scenario_substance, scenario_data)]"
    by (simp add: empty_data_def scenario_data_def)
  note z = zero_element_skip [of "scenario_sc\<lparr>num_released := 0\<rparr>" scenario_self
      example_models "Fin 900" 0 empty_data scenario_substance "[''dissolution'' \<mapsto> Fin 0]"
      "[(scenario_substance, empty_data), (scenario_substance, scenario_data)]" "[]"]
  from z a have d: "weather_elements scenario_self example_models
      (scenario_sc\<lparr>num_released := 0\<rparr>) (Fin 900) 0 = Inr (scenario_sc\<lparr>num_released := 0\<rparr>, [])"
    by blast
  from z b have e: "weather_substance scenario_self example_models 0 (Fin 900)
      scenario_substance empty_data [''dissolution'' \<mapsto> Fin 0]
      = Inr (empty_data, [''dissolution'' \<mapsto> Fin 0], [])"
    by blast
  from z have "ledger_and_queries
     (weather_loop scenario_self example_models 0 (Fin 900)
        [(scenario_substance, empty_data), (scenario_substance, scenario_data)]
        [''dissolution'' \<mapsto> Fin 0] [])
     = ledger_and_queries
         (weather_loop scenario_self example_models 0 (Fin 900)
            (filter (\<lambda>(s, d). mass d \<noteq> [])
               [(scenario_substance, empty_data), (scenario_substance, scenario_data)])
            [''dissolution'' \<mapsto> Fin 0] [])"
    by blast
  then have f: "ledger_and_queries
     (weather_loop scenario_self example_models 0 (Fin 900)
        [(scenario_substance, empty_data), (scenario_substance, scenario_data)]
        [''dissolution'' \<mapsto> Fin 0] [])
     = ledger_and_queries
         (weather_loop scenario_self example_models 0 (Fin 900)
            [(scenario_substance, scenario_data)] [''dissolution'' \<mapsto> Fin 0] [])"
    by (simp only: c)
  from a d b e f show ?thesis by blast
qed

subsection \<open>C8: the clamp of the mass fraction\<close>

text \<open>
  C8: the fraction of mass lost is never above 1, whatever the two sums are, and it is 0
  when the total mass is 0; a component mass that is not negative stays so when it is
  scaled by one minus the fraction; and a step that starts from masses that are not
  negative ends with masses that are not negative.
\<close>

theorem mass_fraction_clamped:
  "\<not> fgt (diss_mass_frac x y) (Fin 1) \<and>
   diss_mass_frac x (Fin 0) = Fin 0 \<and>
   (0 \<le> m \<longrightarrow> nonneg (fmul (fsub (Fin 1) (diss_mass_frac (Fin a) (Fin b))) (Fin m))) \<and>
   (weather_elements self M sc dt t = Inr (sc', q) \<and>
    list_all (\<lambda>(s, d). masses_nonneg d) (substances sc) \<longrightarrow>
      list_all (\<lambda>(s, d). masses_nonneg d) (substances sc'))"
proof (intro conjI impI)
  show "\<not> fgt (diss_mass_frac x y) (Fin 1)" by (rule frac_at_most_one)
  show "diss_mass_frac x (Fin 0) = Fin 0" by (rule frac_zero_mass)
next
  assume "0 \<le> m"
  then show "nonneg (fmul (fsub (Fin 1) (diss_mass_frac (Fin a) (Fin b))) (Fin m))"
    by (rule scaled_nonneg)
next
  assume a: "weather_elements self M sc dt t = Inr (sc', q) \<and>
    list_all (\<lambda>(s, d). masses_nonneg d) (substances sc)"
  then have "weather_elements self M sc dt t = Inr (sc', q)" by simp
  then show "list_all (\<lambda>(s, d). masses_nonneg d) (substances sc')"
  proof (cases rule: weather_elements_cases)
    case idle
    with a show ?thesis by simp
  next
    case (run subs')
    from stepped_all_masses_nonneg [OF run(4)] a run(3) show ?thesis by simp
  qed
qed

theorem mass_fraction_clamped_witness:
  "\<not> fgt (diss_mass_frac (Fin 150) (Fin 100)) (Fin 1) \<and>
   diss_mass_frac (Fin 150) (Fin 0) = Fin 0 \<and>
   (0::real) \<le> 50 \<and>
   nonneg (fmul (fsub (Fin 1) (diss_mass_frac (Fin 150) (Fin 100))) (Fin 50)) \<and>
   weather_elements scenario_self example_models scenario_sc (Fin 900) 0
     = Inr (scenario_after, step_queries 0) \<and>
   list_all (\<lambda>(s, d). masses_nonneg d) (substances scenario_sc) \<and>
   list_all (\<lambda>(s, d). masses_nonneg d) (substances scenario_after)"
proof -
  have nn: "list_all (\<lambda>(s, d). masses_nonneg d) (substances scenario_sc)"
    by (simp add: masses_nonneg_def scenario_sc_def scenario_data_def)
  have m: "(0::real) \<le> 50" by simp
  note inst = mass_fraction_clamped [where x = "Fin 150" and y = "Fin 100" and m = 50
      and a = 150 and b = 100 and self = scenario_self and M = example_models
      and sc = scenario_sc and dt = "Fin 900" and t = 0 and sc' = scenario_after
      and q = "step_queries 0"]
  have z: "diss_mass_frac (Fin 150) (Fin 0) = Fin 0"
    using mass_fraction_clamped [where x = "Fin 150"] by blast
  from inst nn m scenario_step z show ?thesis by blast
qed

subsection \<open>C9: the overall partition coefficient\<close>

text \<open>
  C9: for every element that \<^verbatim>\<open>dissolve_oil\<close> processes, the coefficient it stores
  in \<^verbatim>\<open>partition_coeff\<close> is the aggregate of the specification: the partition values
  of the components, zero for those that are not aromatic, weighted by mass over
  molecular weight, summed and normalised. It holds when \<^verbatim>\<open>dissolve_oil\<close> returns,
  every component has a type, every element a droplet size and one finite mass per
  component, and the partition values of the components are finite.
\<close>

theorem partition_coeff_stored:
  assumes "dissolve_oil self M d s t dt = Inr (d', diss, q)"
    and "length (sara_type s) = length (molecular_weight s)"
    and "list_all (\<lambda>row. length row = length (molecular_weight s) \<and> list_all is_finite row)
           (mass_components d)"
    and "length (droplet_avg_size d) = length (mass_components d)"
    and "list_all (\<lambda>(mw, rho). is_finite (LeeHuibers_partition_coeff M mw rho))
           (zip (molecular_weight s) (component_density s))"
  shows "take (length (mass_components d)) (partition_coeff d')
           = map (K_ow_spec M s) (mass_components d)"
  using dissolve_oil_stores [OF assms]
  by (intro nth_equalityI) simp_all

theorem partition_coeff_stored_witness:
  "dissolve_oil scenario_self example_models scenario_data scenario_substance 0 (Fin 900)
     = Inr (scenario_after_data, [Fin 0], step_queries 0) \<and>
   take (length (mass_components scenario_data)) (partition_coeff scenario_after_data)
     = map (K_ow_spec example_models scenario_substance) (mass_components scenario_data) \<and>
   partition_coeff scenario_after_data = [Fin (150000 / 239)]"
proof -
  have a: "length (sara_type scenario_substance) = length (molecular_weight scenario_substance)"
    by (simp add: scenario_substance_def)
  have b: "list_all (\<lambda>row. length row = length (molecular_weight scenario_substance) \<and>
             list_all is_finite row) (mass_components scenario_data)"
    by (simp add: scenario_substance_def scenario_data_def)
  have c: "length (droplet_avg_size scenario_data) = length (mass_components scenario_data)"
    by (simp add: scenario_data_def)
  have d: "list_all (\<lambda>(mw, rho). is_finite (LeeHuibers_partition_coeff example_models mw rho))
             (zip (molecular_weight scenario_substance) (component_density scenario_substance))"
    by (simp add: scenario_substance_def example_models_def)
  have e: "partition_coeff scenario_after_data = [Fin (150000 / 239)]"
    by (simp add: scenario_after_data_def)
  from partition_coeff_stored [OF scenario_dissolve a b c d] scenario_dissolve e
  show ?thesis by blast
qed

subsection \<open>C10: \<^verbatim>\<open>dissolve_oil\<close> returns zeros\<close>

text \<open>
  C10 as stated, for every input, fails: \<^verbatim>\<open>dissolve_oil\<close> does not return when the
  process has no \<^verbatim>\<open>waves\<close> (the default of the constructor), it raises
  \<^verbatim>\<open>AttributeError\<close> at the first element.
\<close>

theorem dissolve_oil_raises_without_waves:
  "dissolve_oil no_waves_self example_models scenario_data scenario_substance 0 (Fin 900)
     = Inl AttributeError"
  by (simp add: dissolve_oil_def no_waves_self_def
      scenario_self_def scenario_data_def scenario_substance_def 
      bc2_def overall_K_ow_def element_flux_def oil_avg_density_def Let_def)

text \<open>
  C10 amended: whenever \<^verbatim>\<open>dissolve_oil\<close> returns, it returns zeros, one per entry of
  \<^verbatim>\<open>data['mass']\<close>, and the masses as they were; it does return when the process
  has a provider and the arrays are well-formed. Whenever a step of
  \<^verbatim>\<open>weather_elements\<close> completes, the ledger and every component mass are as
  before, and so is every total mass that was the sum of its row; the step does complete
  when the process has a provider, the ledger has its entry and all arrays are
  well-formed.
\<close>

theorem dissolve_oil_zeros_when_it_returns:
  "(dissolve_oil self M d s t dt = Inr (d', diss, q) \<longrightarrow>
      diss = replicate (length (mass d)) (Fin 0) \<and>
      mass d' = mass d \<and> mass_components d' = mass_components d) \<and>
   (waves self \<noteq> None \<and> well_formed s d \<longrightarrow>
      (\<exists>d' q. dissolve_oil self M d s t dt
                = Inr (d', replicate (length (mass d)) (Fin 0), q))) \<and>
   (weather_elements self M sc dt t = Inr (sc', q') \<longrightarrow>
      mass_balance sc' = mass_balance sc \<and>
      map (\<lambda>(s, d). mass_components d) (substances sc')
        = map (\<lambda>(s, d). mass_components d) (substances sc) \<and>
      (list_all (\<lambda>(s, d). mass d = map fsum (mass_components d)) (substances sc) \<longrightarrow>
         map (\<lambda>(s, d). mass d) (substances sc') = map (\<lambda>(s, d). mass d) (substances sc))) \<and>
   (waves self \<noteq> None \<and> mass_balance sc ''dissolution'' \<noteq> None \<and>
    list_all (\<lambda>(s, d). well_formed s d) (substances sc) \<longrightarrow>
      (\<exists>sc' q'. weather_elements self M sc dt t = Inr (sc', q')))"
proof (intro conjI impI)
  assume a: "dissolve_oil self M d s t dt = Inr (d', diss, q)"
  from dissolve_oil_result [OF a]
  show "diss = replicate (length (mass d)) (Fin 0)"
    and "mass d' = mass d" and "mass_components d' = mass_components d"
    by auto
next
  assume "waves self \<noteq> None \<and> well_formed s d"
  then obtain w where "waves self = Some w" "well_formed s d" by auto
  from dissolve_oil_succeeds [OF this, of M t dt]
  show "\<exists>d' q. dissolve_oil self M d s t dt
                = Inr (d', replicate (length (mass d)) (Fin 0), q)"
    by blast
next
  assume a: "weather_elements self M sc dt t = Inr (sc', q')"
  from weather_elements_frame [OF a]
  show "mass_balance sc' = mass_balance sc"
    and "map (\<lambda>(s, d). mass_components d) (substances sc')
        = map (\<lambda>(s, d). mass_components d) (substances sc)"
    by simp_all
  assume "list_all (\<lambda>(s, d). mass d = map fsum (mass_components d)) (substances sc)"
  with weather_elements_frame(3) [OF a]
  show "map (\<lambda>(s, d). mass d) (substances sc') = map (\<lambda>(s, d). mass d) (substances sc)"
    by simp
next
  assume "waves self \<noteq> None \<and> mass_balance sc ''dissolution'' \<noteq> None \<and>
    list_all (\<lambda>(s, d). well_formed s d) (substances sc)"
  then obtain w v where "waves self = Some w" "mass_balance sc ''dissolution'' = Some v"
    "list_all (\<lambda>(s, d). well_formed s d) (substances sc)"
    by auto
  from weather_elements_succeeds [where sc = sc, OF this, of M dt t]
  show "\<exists>sc' q'. weather_elements self M sc dt t = Inr (sc', q')" .
qed

theorem dissolve_oil_zeros_when_it_returns_witness:
  "waves scenario_self \<noteq> None \<and> well_formed scenario_substance scenario_data \<and>
   mass_balance scenario_sc ''dissolution'' \<noteq> None \<and>
   list_all (\<lambda>(s, d). well_formed s d) (substances scenario_sc) \<and>
   list_all (\<lambda>(s, d). mass d = map fsum (mass_components d)) (substances scenario_sc) \<and>
   (\<exists>d' q. dissolve_oil scenario_self example_models scenario_data scenario_substance 0 (Fin 900)
              = Inr (d', [Fin 0], q) \<and>
            mass d' = [Fin 100] \<and> mass_components d' = [[Fin 50, Fin 50]]) \<and>
   (\<exists>sc' q'. weather_elements scenario_self example_models scenario_sc (Fin 900) 0
                = Inr (sc', q') \<and>
              mass_balance sc' = [''dissolution'' \<mapsto> Fin 0] \<and>
              map (\<lambda>(s, d). mass_components d) (substances sc') = [[[Fin 50, Fin 50]]] \<and>
              map (\<lambda>(s, d). mass d) (substances sc') = [[Fin 100]])"
proof -
  have h1: "waves scenario_self \<noteq> None" by (simp add: scenario_self_def)
  have h2: "well_formed scenario_substance scenario_data" by (rule scenario_well_formed)
  have h3: "mass_balance scenario_sc ''dissolution'' \<noteq> None" by (simp add: scenario_sc_def)
  have h4: "list_all (\<lambda>(s, d). well_formed s d) (substances scenario_sc)"
    using h2 by (simp add: scenario_sc_def)
  have h5: "list_all (\<lambda>(s, d). mass d = map fsum (mass_components d)) (substances scenario_sc)"
    by (simp add: scenario_sc_def scenario_data_def)
  have m: "mass scenario_data = [Fin 100]" "mass_components scenario_data = [[Fin 50, Fin 50]]"
    "mass_balance scenario_sc = [''dissolution'' \<mapsto> Fin 0]"
    "map (\<lambda>(s, d). mass_components d) (substances scenario_sc) = [[[Fin 50, Fin 50]]]"
    "map (\<lambda>(s, d). mass d) (substances scenario_sc) = [[Fin 100]]"
    by (simp_all add: scenario_data_def scenario_sc_def)
  note inst = dissolve_oil_zeros_when_it_returns [where self = scenario_self
      and M = example_models and d = scenario_data and s = scenario_substance and t = 0
      and dt = "Fin 900" and sc = scenario_sc]
  from inst h1 h2 obtain d' q where
    d: "dissolve_oil scenario_self example_models scenario_data scenario_substance 0 (Fin 900)
          = Inr (d', replicate (length (mass scenario_data)) (Fin 0), q)"
    by blast
  from inst [where d' = d' and q = q
      and diss = "replicate (length (mass scenario_data)) (Fin 0)"] d
  have d2: "mass d' = mass scenario_data" "mass_components d' = mass_components scenario_data"
    by blast+
  from inst h1 h3 h4 obtain sc' q' where
    w: "weather_elements scenario_self example_models scenario_sc (Fin 900) 0 = Inr (sc', q')"
    by blast
  from inst [where sc' = sc' and q' = q'] w h5
  have w2: "mass_balance sc' = mass_balance scenario_sc"
    "map (\<lambda>(s, d). mass_components d) (substances sc')
       = map (\<lambda>(s, d). mass_components d) (substances scenario_sc)"
    "map (\<lambda>(s, d). mass d) (substances sc') = map (\<lambda>(s, d). mass d) (substances scenario_sc)"
    by blast+
  from d d2 m have A: "\<exists>d' q. dissolve_oil scenario_self example_models scenario_data
        scenario_substance 0 (Fin 900) = Inr (d', [Fin 0], q) \<and>
      mass d' = [Fin 100] \<and> mass_components d' = [[Fin 50, Fin 50]]"
    by (intro exI [of _ d'] exI [of _ q]) simp
  from w w2 m have B: "\<exists>sc' q'. weather_elements scenario_self example_models scenario_sc
        (Fin 900) 0 = Inr (sc', q') \<and>
      mass_balance sc' = [''dissolution'' \<mapsto> Fin 0] \<and>
      map (\<lambda>(s, d). mass_components d) (substances sc') = [[[Fin 50, Fin 50]]] \<and>
      map (\<lambda>(s, d). mass d) (substances sc') = [[Fin 100]]"
    by (intro exI [of _ sc'] exI [of _ q']) simp
  from h1 h2 h3 h4 h5 A B show ?thesis by blast
qed

end
